theory Spec2Isabelle
  imports Complex_Main
begin

chapter \<open>The editor, as written\<close>

section \<open>Strings\<close>

text \<open>
  A JavaScript string is modelled as the list of its UTF-16 code units, so that
  \<open>length\<close> is the source's \<open>.length\<close>.  The functions below are polymorphic in the
  type of the code unit; concrete examples use \<open>char\<close> for text in the Latin-1 range.
\<close>

definition endsWith :: "'u list \<Rightarrow> 'u list \<Rightarrow> bool" where
  "endsWith s t = (length t \<le> length s \<and> drop (length s - length t) s = t)"

fun includesStr :: "'u list \<Rightarrow> 'u list \<Rightarrow> bool" where
  "includesStr [] t = (t = [])"
| "includesStr (c # cs) t = (take (length t) (c # cs) = t \<or> includesStr cs t)"

definition startsWith :: "'u list \<Rightarrow> 'u list \<Rightarrow> bool" where
  "startsWith s t = (take (length t) s = t)"

section \<open>Content synchronizer\<close>

text \<open>
  The editable surface as the synchronization effect of \<open>RichEditor\<close> sees it: its
  serialization (\<open>editorRef.current.innerHTML\<close>), whether it is
  \<open>document.activeElement\<close>, and the log of the assignments made to \<open>innerHTML\<close>.
  The surface is represented by its serialization, so an assignment stores the string
  as it is.
\<close>

record 'u surface =
  surfaceHTML :: "'u list"
  surfaceFocused :: bool
  surfaceWrites :: "'u list list"

text \<open>The assignment \<open>editorRef.current.innerHTML = content\<close>.\<close>

definition assignHTML :: "'u list \<Rightarrow> 'u surface \<Rightarrow> 'u surface" where
  "assignHTML content ed =
     ed\<lparr>surfaceHTML := content, surfaceWrites := surfaceWrites ed @ [content]\<rparr>"

text \<open>
  The effect \<open>useEffect(() => { if (editorRef.current) { ... } }, [content])\<close>.
  The argument \<open>None\<close> is an unmounted \<open>editorRef\<close>.
\<close>

definition syncEffect :: "'u list \<Rightarrow> 'u surface option \<Rightarrow> 'u surface option" where
  "syncEffect content editorRef =
     (case editorRef of
        None \<Rightarrow> None
      | Some ed \<Rightarrow>
          (let currentHTML = surfaceHTML ed in
           if content \<noteq> currentHTML then
             (let isFocused = surfaceFocused ed in
              if \<not> isFocused
                 \<or> \<bar>int (length content) - int (length currentHTML)\<bar> > 10
                 \<or> content = []
              then Some (assignHTML content ed)
              else Some ed)
           else Some ed))"

section \<open>Word count and reading time\<close>

text \<open>
  \<open>text.trim()\<close>, \<open>split(/\s+/)\<close> and the filter of the statistics effect.  The class of
  white space (\<open>\s\<close>, which is also what \<open>trim\<close> strips) is a parameter \<open>ws\<close>.
\<close>

definition trim :: "('u \<Rightarrow> bool) \<Rightarrow> 'u list \<Rightarrow> 'u list" where
  "trim ws s = rev (dropWhile ws (rev (dropWhile ws s)))"

text \<open>
  \<open>s.split(/\s+/)\<close>: the pieces between the maximal runs of white space.  The first
  piece is the longest prefix free of white space; if something is left it starts
  with a run of white space, which is skipped as a whole.
\<close>

function splitWs :: "('u \<Rightarrow> bool) \<Rightarrow> 'u list \<Rightarrow> 'u list list" where
  "splitWs ws s =
     takeWhile (\<lambda>c. \<not> ws c) s #
       (case dropWhile (\<lambda>c. \<not> ws c) s of
          [] \<Rightarrow> []
        | r # rest \<Rightarrow> splitWs ws (dropWhile ws rest))"
  by pat_completeness auto
termination
proof (relation "measure (\<lambda>(ws, s). length s)")
  show "wf (measure (\<lambda>(ws, s). length s))" by simp
next
  fix ws :: "'u \<Rightarrow> bool" and s :: "'u list" and r rest
  assume a: "dropWhile (\<lambda>c. \<not> ws c) s = r # rest"
  have "length (dropWhile ws rest) \<le> length rest"
    by (rule length_dropWhile_le)
  moreover have "length (r # rest) \<le> length s"
    unfolding a [symmetric] by (rule length_dropWhile_le)
  ultimately show "((ws, dropWhile ws rest), (ws, s)) \<in> measure (\<lambda>(ws, s). length s)"
    by simp
qed

declare splitWs.simps [simp del]

definition countWords :: "('u \<Rightarrow> bool) \<Rightarrow> 'u list \<Rightarrow> nat" where
  "countWords ws text = length (filter (\<lambda>w. length w > 0) (splitWs ws (trim ws text)))"

text \<open>\<open>Math.ceil(words / 200)\<close>, the quotient taken exactly.\<close>

definition readingTimeOf :: "nat \<Rightarrow> nat" where
  "readingTimeOf words = nat \<lceil>(of_nat words :: rat) / 200\<rceil>"

text \<open>
  The statistics effect: \<open>editorRef.current?.innerText || ""\<close> is the argument
  (\<open>None\<close> when the reference is unmounted); the result is the pair given to
  \<open>setWordCount\<close> and \<open>setReadingTime\<close>.
\<close>

definition statsEffect :: "('u \<Rightarrow> bool) \<Rightarrow> 'u list option \<Rightarrow> nat \<times> nat" where
  "statsEffect ws innerText =
     (let text = (case innerText of None \<Rightarrow> [] | Some t \<Rightarrow> t);
          words = countWords ws text
      in (words, readingTimeOf words))"

text \<open>White space among the characters of the Latin-1 range.\<close>

definition jsSpace :: "char \<Rightarrow> bool" where
  "jsSpace c = (c = CHR '' '' \<or> c = CHR 0x09 \<or> c = CHR 0x0A \<or> c = CHR 0x0B
                \<or> c = CHR 0x0C \<or> c = CHR 0x0D \<or> c = CHR 0xA0)"

text \<open>
  The specification's reading of the word count: the number of maximal runs of
  characters that are not white space, that is the number of positions at which such
  a run starts.
\<close>

definition specWordCount :: "('u \<Rightarrow> bool) \<Rightarrow> 'u list \<Rightarrow> nat" where
  "specWordCount ws text =
     card {i. i < length text \<and> \<not> ws (text ! i) \<and> (i = 0 \<or> ws (text ! (i - 1)))}"

text \<open>
  The same count computed along the text; the flag says whether the previous character
  was white space (or the start of the text).  \<open>startsAt\<close> is the set of the counted
  positions.
\<close>

fun tokenStarts :: "('u \<Rightarrow> bool) \<Rightarrow> bool \<Rightarrow> 'u list \<Rightarrow> nat" where
  "tokenStarts ws prev [] = 0"
| "tokenStarts ws prev (c # cs) =
     (if \<not> ws c \<and> prev then 1 else 0) + tokenStarts ws (ws c) cs"

definition startsAt :: "('u \<Rightarrow> bool) \<Rightarrow> bool \<Rightarrow> 'u list \<Rightarrow> nat set" where
  "startsAt ws prev s =
     {i. i < length s \<and> \<not> ws (s ! i) \<and> (if i = 0 then prev else ws (s ! (i - 1)))}"

section \<open>Component state\<close>

text \<open>
  The \<open>useState\<close> cells of \<open>RichEditor\<close> that the handlers below read or write, with the
  two outputs of a handler: the calls of \<open>onChange\<close> in order, and the callbacks it
  leaves with \<open>setTimeout\<close> or \<open>requestAnimationFrame\<close>.  A DOM node is named by a
  number; references such as \<open>activeBlock\<close> hold that name.  Pixel positions of the
  popups and of the side rail (\<open>menuPos\<close>, \<open>bubbleMenuPos\<close>, \<open>activeBlockTop\<close>), the
  lightbox and the font style are presentation and are left out.
\<close>

type_synonym node = nat

datatype position = Before | After

datatype aiModeT = AiNone | AiPrompt | AiLoading

datatype task =
    UpdateActiveBlock
  | CheckSelectionFrame aiModeT

record ui =
  showMenu :: bool
  activeBlock :: "node option"
  showSideControls :: bool
  showBlockOptions :: bool
  isDragging :: bool
  dropIndicator :: "(rat \<times> rat \<times> rat) option"
  dropTargetInfo :: "(node \<times> position) option"
  showBubbleMenu :: bool
  selectionRange :: "string option"
  aiMode :: aiModeT
  aiPrompt :: string
  emitted :: "string list"
  timers :: "task list"

definition onChange :: "string \<Rightarrow> 'z ui_scheme \<Rightarrow> 'z ui_scheme" where
  "onChange html u = u\<lparr>emitted := emitted u @ [html]\<rparr>"

definition later :: "task \<Rightarrow> 'z ui_scheme \<Rightarrow> 'z ui_scheme" where
  "later t u = u\<lparr>timers := timers u @ [t]\<rparr>"

section \<open>The editable root and its blocks\<close>

text \<open>
  The DOM under the editable root, as far as the block handlers touch it: the ordered
  child nodes of the root, which of them are elements (\<open>children\<close> lists those only),
  the serialization of each node, and the browser's selection.  \<open>nextNode\<close> is the name
  that the next \<open>createElement\<close> or \<open>cloneNode\<close> gives out.  A node is either a child
  of the root or detached.

  The selection is recorded by what the handlers ask of it: the anchor node followed
  by its chain of \<open>parentNode\<close>s, the \<open>textContent\<close> of the focus node, \<open>isCollapsed\<close>
  and \<open>toString()\<close>.  No selection stands for \<open>rangeCount === 0\<close>.
\<close>

datatype ancestor = EditorRoot | Node node

record selection =
  anchorPath :: "ancestor list"
  focusText :: "string option"
  isCollapsed :: bool
  selString :: string

record editor = ui +
  mounted :: bool
  childNodes :: "node list"
  isElement :: "node \<Rightarrow> bool"
  outerHTML :: "node \<Rightarrow> string"
  nextNode :: node
  selection :: "selection option"

definition innerHTMLOf :: "editor \<Rightarrow> string" where
  "innerHTMLOf e = concat (map (outerHTML e) (childNodes e))"

subsection \<open>DOM operations on the child list\<close>

datatype domError = NotFoundError

fun nextSibling :: "node list \<Rightarrow> node \<Rightarrow> node option" where
  "nextSibling [] a = None"
| "nextSibling [x] a = None"
| "nextSibling (x # y # r) a = (if x = a then Some y else nextSibling (y # r) a)"

fun previousSibling :: "node list \<Rightarrow> node \<Rightarrow> node option" where
  "previousSibling [] a = None"
| "previousSibling [x] a = None"
| "previousSibling (x # y # r) a = (if y = a then Some x else previousSibling (y # r) a)"

fun placeBefore :: "node \<Rightarrow> node \<Rightarrow> node list \<Rightarrow> node list" where
  "placeBefore n r [] = [n]"
| "placeBefore n r (x # xs) = (if x = r then n # x # xs else x # placeBefore n r xs)"

definition appendChild :: "node \<Rightarrow> node list \<Rightarrow> node list" where
  "appendChild n kids = remove1 n kids @ [n]"

text \<open>
  \<open>parent.insertBefore(n, ref)\<close> of the DOM standard: a reference that is not a child
  of the parent raises \<open>NotFoundError\<close>; a null reference appends; a reference that is
  the node itself is replaced by the node's next sibling; the node leaves its old
  place before it is put in front of the reference.
\<close>

definition insertBefore :: "node \<Rightarrow> node option \<Rightarrow> node list \<Rightarrow> domError + node list" where
  "insertBefore n ref kids =
     (case ref of
        None \<Rightarrow> Inr (appendChild n kids)
      | Some r \<Rightarrow>
          if r \<notin> set kids then Inl NotFoundError
          else (case (if r = n then nextSibling kids n else Some r) of
                  None \<Rightarrow> Inr (appendChild n kids)
                | Some q \<Rightarrow> Inr (placeBefore n q (remove1 n kids))))"

subsection \<open>The active block\<close>

text \<open>
  The loop \<open>while (node && node !== root && node.parentNode !== root) node =
  node.parentNode\<close> over the anchor's chain of parents: the result is the rest of the
  chain that starts at the final \<open>node\<close> (empty when \<open>node\<close> has become null).
\<close>

fun walkUp :: "ancestor list \<Rightarrow> ancestor list" where
  "walkUp [] = []"
| "walkUp [n] = (if n = EditorRoot then [n] else [])"
| "walkUp (n # p # rest) =
     (if n = EditorRoot \<or> p = EditorRoot then n # p # rest else walkUp (p # rest))"

definition hideSideControls :: "editor \<Rightarrow> editor" where
  "hideSideControls e = (if \<not> isDragging e then e\<lparr>showSideControls := False\<rparr> else e)"

definition updateActiveBlock :: "editor \<Rightarrow> editor" where
  "updateActiveBlock e =
     (case selection e of
        None \<Rightarrow> hideSideControls e
      | Some sel \<Rightarrow>
          if \<not> mounted e then hideSideControls e
          else (case walkUp (anchorPath sel) of
                  Node el # EditorRoot # _ \<Rightarrow>
                    e\<lparr>activeBlock := Some el, showSideControls := True\<rparr>
                | _ \<Rightarrow> hideSideControls e))"

subsection \<open>Block actions\<close>

datatype blockAction = Delete | Duplicate | Up | Down

text \<open>The \<open>switch\<close> of \<open>handleBlockAction\<close>: the DOM mutation of each action.\<close>

definition blockMutation :: "blockAction \<Rightarrow> node \<Rightarrow> editor \<Rightarrow> domError + editor" where
  "blockMutation action a e =
     (case action of
        Delete \<Rightarrow> Inr (e\<lparr>childNodes := remove1 a (childNodes e)\<rparr>)
      | Duplicate \<Rightarrow>
          (let clone = nextNode e;
               e1 = e\<lparr>nextNode := Suc clone,
                      isElement := (isElement e)(clone := isElement e a),
                      outerHTML := (outerHTML e)(clone := outerHTML e a)\<rparr>
           in case insertBefore clone (nextSibling (childNodes e) a) (childNodes e) of
                Inl err \<Rightarrow> Inl err
              | Inr kids \<Rightarrow> Inr (e1\<lparr>childNodes := kids\<rparr>))
      | Up \<Rightarrow>
          (case previousSibling (childNodes e) a of
             Some prev \<Rightarrow>
               (case insertBefore a (Some prev) (childNodes e) of
                  Inl err \<Rightarrow> Inl err
                | Inr kids \<Rightarrow> Inr (e\<lparr>childNodes := kids\<rparr>))
           | None \<Rightarrow> Inr e)
      | Down \<Rightarrow>
          (case nextSibling (childNodes e) a of
             Some nxt \<Rightarrow>
               (case insertBefore nxt (Some a) (childNodes e) of
                  Inl err \<Rightarrow> Inl err
                | Inr kids \<Rightarrow> Inr (e\<lparr>childNodes := kids\<rparr>))
           | None \<Rightarrow> Inr e))"

definition handleBlockAction :: "blockAction \<Rightarrow> editor \<Rightarrow> domError + editor" where
  "handleBlockAction action e =
     (case activeBlock e of
        None \<Rightarrow> Inr e
      | Some a \<Rightarrow>
          if \<not> mounted e then Inr e
          else (case blockMutation action a e of
                  Inl err \<Rightarrow> Inl err
                | Inr e1 \<Rightarrow>
                    Inr (later UpdateActiveBlock
                          ((onChange (innerHTMLOf e1) e1)\<lparr>showBlockOptions := False\<rparr>))))"

text \<open>
  \<open>handleAddNextLine\<close>: the new paragraph, the caret put at its start, the active
  block recomputed at once, the slash menu opened.
\<close>

definition handleAddNextLine :: "editor \<Rightarrow> domError + editor" where
  "handleAddNextLine e =
     (case activeBlock e of
        None \<Rightarrow> Inr e
      | Some a \<Rightarrow>
          if \<not> mounted e then Inr e
          else
            (let newBlock = nextNode e;
                 e1 = e\<lparr>nextNode := Suc newBlock,
                        isElement := (isElement e)(newBlock := True),
                        outerHTML := (outerHTML e)(newBlock := ''<p><br></p>'')\<rparr>
             in case (case nextSibling (childNodes e) a of
                        Some nxt \<Rightarrow> insertBefore newBlock (Some nxt) (childNodes e)
                      | None \<Rightarrow> Inr (appendChild newBlock (childNodes e))) of
                  Inl err \<Rightarrow> Inl err
                | Inr kids \<Rightarrow>
                    (let e2 = e1\<lparr>childNodes := kids,
                                 selection := Some \<lparr>anchorPath = [Node newBlock, EditorRoot],
                                                    focusText = Some [],
                                                    isCollapsed = True,
                                                    selString = []\<rparr>\<rparr>;
                         e3 = updateActiveBlock e2
                     in Inr (e3\<lparr>showMenu := True\<rparr>))))"

subsection \<open>Drag and drop\<close>

text \<open>
  A \<open>DOMRect\<close> by its \<open>top\<close>, \<open>height\<close>, \<open>left\<close> and \<open>width\<close>; \<open>bottom\<close> is \<open>top + height\<close>.
  Pixel coordinates are taken as exact rationals.  The layout, which the browser
  recomputes after every mutation, is an argument of the drag-over handler.
\<close>

record rect =
  rectTop :: rat
  rectHeight :: rat
  rectLeft :: rat
  rectWidth :: rat

definition rectBottom :: "rect \<Rightarrow> rat" where
  "rectBottom r = rectTop r + rectHeight r"

definition centerOf :: "rect \<Rightarrow> rat" where
  "centerOf r = rectTop r + rectHeight r / 2"

definition handleDragStart :: "editor \<Rightarrow> editor" where
  "handleDragStart e =
     (case activeBlock e of
        None \<Rightarrow> e
      | Some a \<Rightarrow> e\<lparr>isDragging := True, showBlockOptions := False\<rparr>)"

definition handleDragEnd :: "editor \<Rightarrow> editor" where
  "handleDragEnd e = e\<lparr>isDragging := False, dropIndicator := None, dropTargetInfo := None\<rparr>"

text \<open>
  One round of the \<open>forEach\<close> of \<open>handleDragOver\<close>.  The pair is \<open>(closest, minDiff)\<close>;
  \<open>minDiff = None\<close> is the initial \<open>Infinity\<close>.
\<close>

definition scanChild ::
  "node \<Rightarrow> rat \<Rightarrow> (node \<Rightarrow> rect) \<Rightarrow> node option \<times> rat option \<Rightarrow> node \<Rightarrow> node option \<times> rat option"
where
  "scanChild source clientY rects acc child =
     (if child = source then acc
      else
        (let center = centerOf (rects child);
             diff = \<bar>clientY - center\<bar>
         in if (case snd acc of None \<Rightarrow> True | Some minDiff \<Rightarrow> diff < minDiff) \<and> diff < 150
            then (Some child, Some diff)
            else acc))"

definition handleDragOver :: "rat \<Rightarrow> (node \<Rightarrow> rect) \<Rightarrow> editor \<Rightarrow> editor" where
  "handleDragOver clientY rects e =
     (case activeBlock e of
        None \<Rightarrow> e
      | Some source \<Rightarrow>
          if \<not> isDragging e \<or> \<not> mounted e then e
          else
            (let children = filter (isElement e) (childNodes e);
                 closest = fst (foldl (scanChild source clientY rects) (None, None) children)
             in case closest of
                  Some c \<Rightarrow>
                    (let r = rects c;
                         isBefore = clientY < centerOf r
                     in e\<lparr>dropIndicator :=
                            Some (if isBefore then rectTop r else rectBottom r, rectLeft r, rectWidth r),
                          dropTargetInfo := Some (c, if isBefore then Before else After)\<rparr>)
                | None \<Rightarrow> e\<lparr>dropIndicator := None, dropTargetInfo := None\<rparr>))"

definition handleDrop :: "editor \<Rightarrow> domError + editor" where
  "handleDrop e =
     (case (activeBlock e, dropTargetInfo e) of
        (Some a, Some (el, pos)) \<Rightarrow>
          if \<not> isDragging e \<or> \<not> mounted e then Inr (handleDragEnd e)
          else
            (case (if pos = Before then insertBefore a (Some el) (childNodes e)
                   else insertBefore a (nextSibling (childNodes e) el) (childNodes e)) of
               Inl err \<Rightarrow> Inl err
             | Inr kids \<Rightarrow>
                 (let e1 = e\<lparr>childNodes := kids\<rparr>
                  in Inr (later UpdateActiveBlock (handleDragEnd (onChange (innerHTMLOf e1) e1)))))
      | _ \<Rightarrow> Inr (handleDragEnd e))"

text \<open>
  The component as it is after mounting on a document of element blocks: every
  \<open>useState\<close> cell at its initial value, no selection.
\<close>

definition mountEditor :: "node list \<Rightarrow> (node \<Rightarrow> string) \<Rightarrow> node \<Rightarrow> editor" where
  "mountEditor kids html fresh =
     \<lparr>showMenu = False, activeBlock = None, showSideControls = False,
      showBlockOptions = False, isDragging = False, dropIndicator = None,
      dropTargetInfo = None, showBubbleMenu = False, selectionRange = None,
      aiMode = AiNone, aiPrompt = [], emitted = [], timers = [],
      mounted = True, childNodes = kids, isElement = (\<lambda>n. True),
      outerHTML = html, nextNode = fresh, selection = None\<rparr>"

text \<open>A document of three paragraphs A, B, C (nodes 0, 1, 2) with the caret in A.\<close>

definition blockHTML :: "node \<Rightarrow> string" where
  "blockHTML n = (if n = 0 then ''<p>A</p>'' else if n = 1 then ''<p>B</p>''
                  else if n = 2 then ''<p>C</p>'' else [])"

definition docABC :: editor where
  "docABC =
     (mountEditor [0, 1, 2] blockHTML 3)
       \<lparr>activeBlock := Some 0, showSideControls := True,
        selection := Some \<lparr>anchorPath = [Node 10, Node 0, EditorRoot], focusText = Some ''A'',
                           isCollapsed = True, selString = []\<rparr>\<rparr>"

text \<open>A layout for it: rows of height 40 from the top of the viewport.\<close>

definition rowRects :: "node \<Rightarrow> rect" where
  "rowRects n = \<lparr>rectTop = 40 * of_nat n, rectHeight = 40, rectLeft = 0, rectWidth = 600\<rparr>"

section \<open>Input, selection and the two popups\<close>

text \<open>
  \<open>handleInput\<close> runs after the browser has applied the user's edit.  \<open>showMenu\<close> is read
  from the render that created the handler, that is from the state the handler starts
  in.
\<close>

definition handleInput :: "editor \<Rightarrow> editor" where
  "handleInput e =
     (if \<not> mounted e then e
      else
        (let e1 = updateActiveBlock (onChange (innerHTMLOf e) e)
         in case selection e1 of
              None \<Rightarrow> e1
            | Some sel \<Rightarrow>
                (case focusText sel of
                   None \<Rightarrow> e1
                 | Some text \<Rightarrow>
                     if endsWith text ''/'' \<and> \<not> showMenu e then e1\<lparr>showMenu := True\<rparr>
                     else if \<not> includesStr text ''/'' then e1\<lparr>showMenu := False\<rparr>
                     else e1)))"

text \<open>
  \<open>checkSelection\<close> leaves its body to \<open>requestAnimationFrame\<close>; the body reads \<open>aiMode\<close>
  from the render that created it.
\<close>

definition checkSelection :: "editor \<Rightarrow> editor" where
  "checkSelection e = later (CheckSelectionFrame (aiMode e)) e"

definition checkSelectionFrame :: "aiModeT \<Rightarrow> editor \<Rightarrow> editor" where
  "checkSelectionFrame capturedAiMode e =
     (let e1 = updateActiveBlock e;
          closeUnlessAi = (if capturedAiMode = AiNone then e1\<lparr>showBubbleMenu := False\<rparr> else e1)
      in case selection e1 of
           None \<Rightarrow> closeUnlessAi
         | Some sel \<Rightarrow>
             if \<not> isCollapsed sel \<and> mounted e1 \<and> EditorRoot \<in> set (anchorPath sel)
             then (let text = trim jsSpace (selString sel)
                   in if length text > 0
                      then e1\<lparr>selectionRange := Some (selString sel), showBubbleMenu := True\<rparr>
                      else closeUnlessAi)
             else closeUnlessAi)"

definition runTask :: "task \<Rightarrow> editor \<Rightarrow> editor" where
  "runTask t e =
     (case t of
        UpdateActiveBlock \<Rightarrow> updateActiveBlock e
      | CheckSelectionFrame m \<Rightarrow> checkSelectionFrame m e)"

subsection \<open>Sessions\<close>

text \<open>
  What can happen to the editor, one event at a time.  \<open>KeyDown\<close>: a key other than
  Enter and Ctrl/Cmd+E goes down, for which \<open>handleKeyDown\<close> only leaves
  \<open>updateActiveBlock\<close> to \<open>setTimeout\<close>.  \<open>Typed n html sel\<close>: the user types in block
  \<open>n\<close>; the browser rewrites the block and moves the caret, then fires \<open>input\<close>.
  \<open>Selected sel\<close>: a key or the mouse is released with the selection \<open>sel\<close> (\<open>onKeyUp\<close>,
  \<open>onMouseUp\<close>).  \<open>NextCallback\<close>: the oldest pending callback runs.  The others are
  clicks on the side controls and the drag events.
\<close>

datatype event =
    KeyDown
  | Typed node string selection
  | Selected "selection option"
  | NextCallback
  | ClickAdd
  | ClickBlockAction blockAction
  | DragStart
  | DragOver rat "node \<Rightarrow> rect"
  | Drop
  | DragEnd

definition fire :: "event \<Rightarrow> editor \<Rightarrow> domError + editor" where
  "fire ev e =
     (case ev of
        KeyDown \<Rightarrow> Inr (later UpdateActiveBlock e)
      | Typed n html sel \<Rightarrow>
          Inr (handleInput (e\<lparr>outerHTML := (outerHTML e)(n := html), selection := Some sel\<rparr>))
      | Selected sel \<Rightarrow> Inr (checkSelection (e\<lparr>selection := sel\<rparr>))
      | NextCallback \<Rightarrow>
          (case timers e of
             [] \<Rightarrow> Inr e
           | t # ts \<Rightarrow> Inr (runTask t (e\<lparr>timers := ts\<rparr>)))
      | ClickAdd \<Rightarrow> handleAddNextLine e
      | ClickBlockAction action \<Rightarrow> handleBlockAction action e
      | DragStart \<Rightarrow> Inr (handleDragStart e)
      | DragOver clientY rects \<Rightarrow> Inr (handleDragOver clientY rects e)
      | Drop \<Rightarrow> handleDrop e
      | DragEnd \<Rightarrow> Inr (handleDragEnd e))"

fun run :: "event list \<Rightarrow> editor \<Rightarrow> domError + editor" where
  "run [] e = Inr e"
| "run (ev # evs) e = (case fire ev e of Inl err \<Rightarrow> Inl err | Inr e' \<Rightarrow> run evs e')"

text \<open>The editor just mounted on the three paragraphs: nothing open, no selection.\<close>

definition mountedABC :: editor where
  "mountedABC = mountEditor [0, 1, 2] blockHTML 3"

section \<open>AI rewrite from the bubble menu\<close>

text \<open>
  \<open>handleAiAction\<close> is an \<open>async\<close> function with one \<open>await\<close>: the part before it, which
  returns the call made to \<open>onAiRequest\<close> if any, and the part after it, which runs when
  the awaited promise is fulfilled.  A rejected promise makes the \<open>await\<close> throw, and the
  rest of the function is skipped.
\<close>

datatype settled = Fulfilled | Rejected

definition handleAiAction_begin ::
  "string \<Rightarrow> string option \<Rightarrow> bool \<Rightarrow> 'z ui_scheme \<Rightarrow> 'z ui_scheme \<times> (string \<times> string) option"
where
  "handleAiAction_begin instruction customPrompt hasAiRequest u =
     (case selectionRange u of
        None \<Rightarrow> (u, None)
      | Some rangeText \<Rightarrow>
          if \<not> hasAiRequest then (u, None)
          else (u\<lparr>aiMode := AiLoading\<rparr>,
                Some (rangeText,
                      (case customPrompt of
                         None \<Rightarrow> instruction
                       | Some p \<Rightarrow> if p = [] then instruction else p))))"

definition handleAiAction_resume :: "settled \<Rightarrow> 'z ui_scheme \<Rightarrow> 'z ui_scheme" where
  "handleAiAction_resume awaited u =
     (case awaited of
        Fulfilled \<Rightarrow> u\<lparr>aiMode := AiNone, showBubbleMenu := False, aiPrompt := []\<rparr>
      | Rejected \<Rightarrow> u)"

text \<open>
  The page that hosts the editor passes \<open>handleAiImprove\<close> as \<open>onAiRequest\<close>.  It wraps
  the call of \<open>improveContent\<close> (the AI call, which resolves with text or throws) in
  \<open>try / catch / finally { resolve() }\<close>.  \<open>replaceSelection\<close> stands for the statements
  that put the improved HTML in place of the selection: it returns the document they
  leave and whether they ran to the end.  The result is the host's state (document and
  notifications) and how the returned promise settles.
\<close>

datatype 'a outcome = Resolves 'a | Throws

type_synonym notification = "string \<times> string"

definition handleAiImprove ::
  "(string \<Rightarrow> 'd \<Rightarrow> 'd \<times> bool) \<Rightarrow> string outcome \<Rightarrow> 'd \<times> notification list
     \<Rightarrow> ('d \<times> notification list) \<times> settled"
where
  "handleAiImprove replaceSelection improveContent host =
     (case improveContent of
        Resolves improved \<Rightarrow>
          (let (dom', completed) = replaceSelection improved (fst host)
           in if completed
              then ((dom', snd host @ [(''success'', ''Content refined'')]), Fulfilled)
              else ((dom', snd host @ [(''error'', ''Improvement failed'')]), Fulfilled))
      | Throws \<Rightarrow> ((fst host, snd host @ [(''error'', ''Improvement failed'')]), Fulfilled))"

text \<open>
  Two selections in the first paragraph once it reads \<open>A/\<close>: the caret after the
  slash, and the slash itself selected.
\<close>

definition caretAfterSlash :: selection where
  "caretAfterSlash =
     \<lparr>anchorPath = [Node 10, Node 0, EditorRoot], focusText = Some ''A/'',
      isCollapsed = True, selString = []\<rparr>"

definition slashSelected :: selection where
  "slashSelected =
     \<lparr>anchorPath = [Node 10, Node 0, EditorRoot], focusText = Some ''A/'',
      isCollapsed = False, selString = ''/''\<rparr>"

text \<open>
  A session on the three paragraphs: the user types a slash at the end of the first
  one (key down, input, key up), then presses Shift+Left, which selects the slash (key
  down, key up); the pending callbacks run after each key.
\<close>

definition slashSession :: "event list" where
  "slashSession =
     [KeyDown, Typed 0 ''<p>A/</p>'' caretAfterSlash, Selected (Some caretAfterSlash),
      NextCallback, NextCallback,
      KeyDown, Selected (Some slashSelected), NextCallback, NextCallback]"

section \<open>Formatting commands and the slash-menu catalogue\<close>

text \<open>
  The handlers of this section reach the document through \<open>document.execCommand\<close>, the
  \<open>Selection\<close> and a few node accessors, whose behaviour is the browser's and not the
  component's.  The browser is therefore a parameter: a record of the operations that
  the handlers call, over a type \<open>'d\<close> of document states (the DOM together with the
  selection) and a type \<open>'n\<close> of node references.

  \<^item> \<open>rangeCount\<close>, \<open>anchorNode\<close>, \<open>selectionToString\<close>: the \<open>Selection\<close>;
  \<^item> \<open>nodeType\<close>, \<open>parentElement\<close>, \<open>tagName\<close> (none for a node that is not an element),
    \<open>innerTextOf\<close>: node accessors;
  \<^item> \<open>replaceWithText el s\<close>: \<open>el.replaceWith(document.createTextNode(s))\<close>;
  \<^item> \<open>documentExecCommand c v\<close>: \<open>document.execCommand(c, false, v)\<close>;
  \<^item> \<open>editorInnerHTML\<close>: \<open>editorRef.current?.innerHTML\<close>, none when unmounted;
  \<^item> \<open>focusEditor\<close>: \<open>editorRef.current?.focus()\<close>;
  \<^item> \<open>editorContainsAnchor\<close>: \<open>editorRef.current.contains(selection.anchorNode)\<close>;
  \<^item> \<open>collapseToEditorEnd\<close>: the selection replaced by a caret at the end of the root;
  \<^item> \<open>focusTextContent\<close>: \<open>selection.focusNode.textContent\<close>, none without a focus node;
  \<^item> \<open>selectLastCharOfFocus\<close>: the selection replaced by the range over the last
    character of the focus node.
\<close>

record ('d, 'n) browser =
  rangeCount :: "'d \<Rightarrow> nat"
  anchorNode :: "'d \<Rightarrow> 'n option"
  selectionToString :: "'d \<Rightarrow> string"
  nodeType :: "'d \<Rightarrow> 'n \<Rightarrow> nat"
  parentElement :: "'d \<Rightarrow> 'n \<Rightarrow> 'n option"
  tagName :: "'d \<Rightarrow> 'n \<Rightarrow> string option"
  innerTextOf :: "'d \<Rightarrow> 'n \<Rightarrow> string"
  replaceWithText :: "'n \<Rightarrow> string \<Rightarrow> 'd \<Rightarrow> 'd"
  documentExecCommand :: "string \<Rightarrow> string option \<Rightarrow> 'd \<Rightarrow> 'd"
  editorInnerHTML :: "'d \<Rightarrow> string option"
  focusEditor :: "'d \<Rightarrow> 'd"
  editorContainsAnchor :: "'d \<Rightarrow> bool"
  collapseToEditorEnd :: "'d \<Rightarrow> 'd"
  focusTextContent :: "'d \<Rightarrow> string option"
  selectLastCharOfFocus :: "'d \<Rightarrow> 'd"

text \<open>\<open>editorRef.current?.innerHTML || ''\<close>\<close>

definition currentHTML :: "('d, 'n) browser \<Rightarrow> 'd \<Rightarrow> string" where
  "currentHTML B d = (case editorInnerHTML B d of None \<Rightarrow> [] | Some html \<Rightarrow> html)"

subsection \<open>Inline code\<close>

definition codeClass :: string where
  "codeClass = ''bg-neutral-200 dark:bg-[#2a2a2a] text-red-500 dark:text-[#EB5757] px-1.5 py-0.5 rounded text-[0.9em] font-mono border border-neutral-300 dark:border-white/5 mx-0.5''"

text \<open>The template literal given to \<open>insertHTML\<close>: the selected text goes in as it is.\<close>

definition inlineCodeHtml :: "string \<Rightarrow> string" where
  \<open>inlineCodeHtml text = ''<code class="'' @ codeClass @ ''">'' @ text @ ''</code>''\<close>

text \<open>
  \<open>let node = selection.anchorNode; if (node && node.nodeType === 3) node =
  node.parentElement;\<close>
\<close>

definition anchorElement :: "('d, 'n) browser \<Rightarrow> 'd \<Rightarrow> 'n option" where
  "anchorElement B d =
     (case anchorNode B d of
        None \<Rightarrow> None
      | Some node \<Rightarrow> if nodeType B d node = 3 then parentElement B d node else Some node)"

definition wrapSelection ::
  "('d, 'n) browser \<Rightarrow> 'd \<times> 'z ui_scheme \<Rightarrow> 'd \<times> 'z ui_scheme" where
  "wrapSelection B st =
     (let (d, u) = st;
          text = selectionToString B d
      in if text \<noteq> []
         then (documentExecCommand B ''insertHTML'' (Some (inlineCodeHtml text)) d,
               u\<lparr>showBubbleMenu := False\<rparr>)
         else (d, u))"

definition toggleInlineCode ::
  "('d, 'n) browser \<Rightarrow> 'd \<times> 'z ui_scheme \<Rightarrow> 'd \<times> 'z ui_scheme" where
  "toggleInlineCode B st =
     (let (d, u) = st
      in if rangeCount B d = 0 then (d, u)
         else
           (let (d1, u1) =
                  (case anchorElement B d of
                     None \<Rightarrow> wrapSelection B (d, u)
                   | Some el \<Rightarrow>
                       if tagName B d el = Some ''CODE''
                       then (let d' = replaceWithText B el (innerTextOf B d el) d
                             in (d', onChange (currentHTML B d') u))
                       else wrapSelection B (d, u))
            in (d1, onChange (currentHTML B d1) u1)))"

subsection \<open>Commands\<close>

definition execCommand ::
  "('d, 'n) browser \<Rightarrow> string \<Rightarrow> string option \<Rightarrow> 'd \<times> 'z ui_scheme \<Rightarrow> 'd \<times> 'z ui_scheme"
where
  "execCommand B command val st =
     (let (d, u) = st;
          d1 = focusEditor B (documentExecCommand B command val d);
          u1 = onChange (currentHTML B d1) u
      in (d1,
          if command \<noteq> ''hiliteColor'' \<and> command \<noteq> ''backColor''
             \<and> \<not> startsWith command ''justify''
          then u1\<lparr>showMenu := False\<rparr>
          else u1))"

definition insertHtml ::
  "('d, 'n) browser \<Rightarrow> string \<Rightarrow> 'd \<times> 'z ui_scheme \<Rightarrow> 'd \<times> 'z ui_scheme" where
  "insertHtml B html st =
     (let (d, u) = st
      in if editorInnerHTML B d = None then (d, u)
         else
           (let d1 = focusEditor B d;
                d2 = (if rangeCount B d1 = 0 \<or> \<not> editorContainsAnchor B d1
                      then collapseToEditorEnd B d1 else d1);
                d3 = (case focusTextContent B d2 of
                        None \<Rightarrow> d2
                      | Some text \<Rightarrow>
                          if endsWith text ''/''
                          then documentExecCommand B ''delete'' None (selectLastCharOfFocus B d2)
                          else d2);
                d4 = documentExecCommand B ''insertHTML'' (Some html) d3
            in (d4, (onChange (currentHTML B d4) u)\<lparr>showMenu := False\<rparr>)))"

subsection \<open>The catalogue of the slash menu\<close>

text \<open>
  \<open>blockTypes\<close>: each label with its action.  Six entries call \<open>execCommand\<close>, four
  call \<open>insertHtml\<close> with a fixed fragment (the emoji of the callout is written as its
  four UTF-8 bytes).  The image, AI image, gallery and video entries first hand over to
  a file picker or a \<open>prompt\<close> dialog; what they do next depends on the answer and
  reaches the document through \<open>insertHtml\<close>.
\<close>

datatype entryAction =
    ExecCommand string "string option"
  | InsertHtml string
  | External

definition blockTypes :: "(string \<times> entryAction) list" where
  \<open>blockTypes =
     [(''Text'', ExecCommand ''formatBlock'' (Some ''P'')),
      (''Heading 1'', ExecCommand ''formatBlock'' (Some ''H1'')),
      (''Heading 2'', ExecCommand ''formatBlock'' (Some ''H2'')),
      (''Heading 3'', ExecCommand ''formatBlock'' (Some ''H3'')),
      (''Bulleted List'', ExecCommand ''insertUnorderedList'' None),
      (''Numbered List'', ExecCommand ''insertOrderedList'' None),
      (''Quote'', InsertHtml ''<blockquote class="border-l-4 border-neutral-900 dark:border-white pl-5 py-1 text-xl italic text-neutral-800 dark:text-white my-6">Empty quote</blockquote>''),
      (''Callout'', InsertHtml (''<div class="flex items-start gap-4 p-4 bg-neutral-100 dark:bg-neutral-900 rounded-lg my-6 border border-neutral-200 dark:border-neutral-800"><span class="text-xl">'' @ [CHR 0xF0, CHR 0x9F, CHR 0x92, CHR 0xA1] @ ''</span><div class="flex-1"><strong class="text-neutral-900 dark:text-white block mb-0.5">Idea</strong><p class="m-0 text-neutral-600 dark:text-neutral-400 text-sm">Enter content...</p></div></div>'')),
      (''Code Block'', InsertHtml ''<pre class="bg-neutral-900 p-4 rounded-lg text-sm font-mono text-neutral-200 my-6 overflow-x-auto border border-white/5"><code>// Code</code></pre>''),
      (''Divider'', InsertHtml ''<hr class="border-neutral-200 dark:border-neutral-800 my-8" />''),
      (''Image'', External),
      (''AI Image'', External),
      (''Gallery'', External),
      (''Video'', External)]\<close>

definition runEntry ::
  "('d, 'n) browser \<Rightarrow> entryAction \<Rightarrow> 'd \<times> 'z ui_scheme \<Rightarrow> 'd \<times> 'z ui_scheme" where
  "runEntry B action st =
     (case action of
        ExecCommand command val \<Rightarrow> execCommand B command val st
      | InsertHtml html \<Rightarrow> insertHtml B html st
      | External \<Rightarrow> st)"

text \<open>The click on the entry with the given label.\<close>

definition chooseEntry ::
  "('d, 'n) browser \<Rightarrow> string \<Rightarrow> 'd \<times> 'z ui_scheme \<Rightarrow> 'd \<times> 'z ui_scheme" where
  "chooseEntry B label st =
     (case map_of blockTypes label of
        None \<Rightarrow> st
      | Some action \<Rightarrow> runEntry B action st)"

section \<open>A small browser\<close>

text \<open>
  A concrete browser for running the handlers of the last section on examples: the
  editable root holds one block element whose children are text nodes and inline
  \<open>code\<close> elements that hold text.  It follows what browsers do on such a document:
  \<open>innerHTML\<close> escapes the text of text nodes, \<open>insertHTML\<close> parses its argument as
  HTML (so character references in it are decoded), replaces the selected text by the
  result and leaves the caret at the end of what it inserted, \<open>formatBlock\<close> changes
  the tag of the block, \<open>delete\<close> removes the selected text.  Fragments and commands
  outside this range leave the page as it is.
\<close>

datatype inline = Txt string | CodeEl string string

text \<open>
  The selection: a range inside the text of child \<open>i\<close> of the block, from offset \<open>s\<close> to
  offset \<open>e\<close> (a caret when they are equal); a caret between the children of the
  block; a caret at the end of the root.
\<close>

datatype caret = InText nat nat nat | InBlock nat | AtRootEnd

record page =
  blockTag :: string
  inlines :: "inline list"
  pageSel :: "caret option"

datatype pnode = TextNode nat | CodeNode nat | BlockNode | RootNode

fun textOf :: "inline \<Rightarrow> string" where
  "textOf (Txt t) = t"
| "textOf (CodeEl attrs t) = t"

definition childAt :: "page \<Rightarrow> nat \<Rightarrow> inline option" where
  "childAt pg i = (if i < length (inlines pg) then Some (inlines pg ! i) else None)"

definition pageText :: "page \<Rightarrow> string" where
  "pageText pg = concat (map textOf (inlines pg))"

subsection \<open>Serialization and parsing\<close>

fun escapeText :: "string \<Rightarrow> string" where
  "escapeText [] = []"
| "escapeText (c # cs) =
     (if c = CHR ''&'' then ''&amp;'' @ escapeText cs
      else if c = CHR ''<'' then ''&lt;'' @ escapeText cs
      else if c = CHR ''>'' then ''&gt;'' @ escapeText cs
      else if c = CHR 0xA0 then ''&nbsp;'' @ escapeText cs
      else c # escapeText cs)"

fun decodeEntities :: "string \<Rightarrow> string" where
  "decodeEntities [] = []"
| "decodeEntities (c # cs) =
     (if c = CHR ''&'' \<and> take 4 cs = ''amp;'' then CHR ''&'' # decodeEntities (drop 4 cs)
      else if c = CHR ''&'' \<and> take 3 cs = ''lt;'' then CHR ''<'' # decodeEntities (drop 3 cs)
      else if c = CHR ''&'' \<and> take 3 cs = ''gt;'' then CHR ''>'' # decodeEntities (drop 3 cs)
      else if c = CHR ''&'' \<and> take 5 cs = ''nbsp;'' then CHR 0xA0 # decodeEntities (drop 5 cs)
      else c # decodeEntities cs)"

fun serializeInline :: "inline \<Rightarrow> string" where
  "serializeInline (Txt t) = escapeText t"
| "serializeInline (CodeEl attrs t) = ''<code '' @ attrs @ ''>'' @ escapeText t @ ''</code>''"

definition lowerTag :: "string \<Rightarrow> string" where
  "lowerTag t = (if t = ''P'' then ''p'' else if t = ''H1'' then ''h1''
                 else if t = ''H2'' then ''h2'' else if t = ''H3'' then ''h3'' else t)"

definition pageHTML :: "page \<Rightarrow> string" where
  "pageHTML pg =
     ''<'' @ lowerTag (blockTag pg) @ ''>'' @ concat (map serializeInline (inlines pg))
       @ ''</'' @ lowerTag (blockTag pg) @ ''>''"

text \<open>
  The fragments this browser parses: text without markup, and one \<open>code\<close> element
  with attributes around text without markup.
\<close>

definition parseInline :: "string \<Rightarrow> inline list option" where
  "parseInline html =
     (if CHR ''<'' \<notin> set html
      then Some (if html = [] then [] else [Txt (decodeEntities html)])
      else if startsWith html ''<code '' \<and> endsWith html ''</code>''
      then
        (let rest = drop 6 html;
             attrs = takeWhile (\<lambda>c. c \<noteq> CHR ''>'') rest;
             tail = drop 1 (dropWhile (\<lambda>c. c \<noteq> CHR ''>'') rest);
             body = take (length tail - 7) tail
         in if 7 \<le> length tail \<and> CHR ''<'' \<notin> set body
            then Some [CodeEl attrs (decodeEntities body)]
            else None)
      else None)"

subsection \<open>The operations\<close>

definition pageAnchorNode :: "page \<Rightarrow> pnode option" where
  "pageAnchorNode pg =
     (case pageSel pg of
        None \<Rightarrow> None
      | Some (InText i s e) \<Rightarrow> Some (TextNode i)
      | Some (InBlock k) \<Rightarrow> Some BlockNode
      | Some AtRootEnd \<Rightarrow> Some RootNode)"

definition pageNodeType :: "page \<Rightarrow> pnode \<Rightarrow> nat" where
  "pageNodeType pg n = (case n of TextNode i \<Rightarrow> 3 | _ \<Rightarrow> 1)"

definition pageParentElement :: "page \<Rightarrow> pnode \<Rightarrow> pnode option" where
  "pageParentElement pg n =
     (case n of
        TextNode i \<Rightarrow>
          (case childAt pg i of
             Some (CodeEl attrs t) \<Rightarrow> Some (CodeNode i)
           | _ \<Rightarrow> Some BlockNode)
      | CodeNode i \<Rightarrow> Some BlockNode
      | BlockNode \<Rightarrow> Some RootNode
      | RootNode \<Rightarrow> None)"

definition pageTagName :: "page \<Rightarrow> pnode \<Rightarrow> string option" where
  "pageTagName pg n =
     (case n of
        TextNode i \<Rightarrow> None
      | CodeNode i \<Rightarrow> Some ''CODE''
      | BlockNode \<Rightarrow> Some (blockTag pg)
      | RootNode \<Rightarrow> Some ''DIV'')"

definition pageInnerText :: "page \<Rightarrow> pnode \<Rightarrow> string" where
  "pageInnerText pg n =
     (case n of
        TextNode i \<Rightarrow> (case childAt pg i of Some c \<Rightarrow> textOf c | None \<Rightarrow> [])
      | CodeNode i \<Rightarrow> (case childAt pg i of Some c \<Rightarrow> textOf c | None \<Rightarrow> [])
      | BlockNode \<Rightarrow> pageText pg
      | RootNode \<Rightarrow> pageText pg)"

text \<open>
  Replacing a \<open>code\<close> element by a text node; a selection inside the removed element
  moves to its place among the children of the block.
\<close>

definition pageReplaceWithText :: "pnode \<Rightarrow> string \<Rightarrow> page \<Rightarrow> page" where
  "pageReplaceWithText n s pg =
     (case n of
        CodeNode i \<Rightarrow>
          pg\<lparr>inlines := (inlines pg)[i := Txt s],
             pageSel := (case pageSel pg of
                           Some (InText j a b) \<Rightarrow> if j = i then Some (InBlock i)
                                                   else Some (InText j a b)
                         | other \<Rightarrow> other)\<rparr>
      | _ \<Rightarrow> pg)"

definition pageSelectionToString :: "page \<Rightarrow> string" where
  "pageSelectionToString pg =
     (case pageSel pg of
        Some (InText i s e) \<Rightarrow>
          (case childAt pg i of
             Some c \<Rightarrow> take (e - s) (drop s (textOf c))
           | None \<Rightarrow> [])
      | _ \<Rightarrow> [])"

definition nonEmptyTxt :: "string \<Rightarrow> inline list" where
  "nonEmptyTxt t = (if t = [] then [] else [Txt t])"

definition pageInsertHTML :: "string \<Rightarrow> page \<Rightarrow> page" where
  "pageInsertHTML html pg =
     (case pageSel pg of
        Some (InText i s e) \<Rightarrow>
          (case (childAt pg i, parseInline html) of
             (Some (Txt t), Some (x # xs)) \<Rightarrow>
               (let lead = take i (inlines pg) @ nonEmptyTxt (take s t);
                    trail = nonEmptyTxt (drop e t) @ drop (Suc i) (inlines pg);
                    caretAt = length (textOf (last (x # xs)))
                in pg\<lparr>inlines := lead @ (x # xs) @ trail,
                      pageSel := Some (InText (length lead + length xs) caretAt caretAt)\<rparr>)
           | _ \<Rightarrow> pg)
      | _ \<Rightarrow> pg)"

definition pageDelete :: "page \<Rightarrow> page" where
  "pageDelete pg =
     (case pageSel pg of
        Some (InText i s e) \<Rightarrow>
          (case childAt pg i of
             Some (Txt t) \<Rightarrow>
               pg\<lparr>inlines := (inlines pg)[i := Txt (take s t @ drop e t)],
                  pageSel := Some (InText i s s)\<rparr>
           | Some (CodeEl attrs t) \<Rightarrow>
               pg\<lparr>inlines := (inlines pg)[i := CodeEl attrs (take s t @ drop e t)],
                  pageSel := Some (InText i s s)\<rparr>
           | None \<Rightarrow> pg)
      | _ \<Rightarrow> pg)"

definition pageExecCommand :: "string \<Rightarrow> string option \<Rightarrow> page \<Rightarrow> page" where
  "pageExecCommand command val pg =
     (if command = ''insertHTML'' then (case val of Some html \<Rightarrow> pageInsertHTML html pg | None \<Rightarrow> pg)
      else if command = ''delete'' then pageDelete pg
      else if command = ''formatBlock'' then (case val of Some t \<Rightarrow> pg\<lparr>blockTag := t\<rparr> | None \<Rightarrow> pg)
      else pg)"

definition pageFocusText :: "page \<Rightarrow> string option" where
  "pageFocusText pg =
     (case pageSel pg of
        None \<Rightarrow> None
      | Some (InText i s e) \<Rightarrow> (case childAt pg i of Some c \<Rightarrow> Some (textOf c) | None \<Rightarrow> None)
      | Some (InBlock k) \<Rightarrow> Some (pageText pg)
      | Some AtRootEnd \<Rightarrow> Some (pageText pg))"

definition pageSelectLastChar :: "page \<Rightarrow> page" where
  "pageSelectLastChar pg =
     (case pageSel pg of
        Some (InText i s e) \<Rightarrow>
          (case childAt pg i of
             Some c \<Rightarrow> pg\<lparr>pageSel := Some (InText i (length (textOf c) - 1) (length (textOf c)))\<rparr>
           | None \<Rightarrow> pg)
      | _ \<Rightarrow> pg)"

definition smallBrowser :: "(page, pnode) browser" where
  "smallBrowser =
     \<lparr>rangeCount = (\<lambda>pg. case pageSel pg of None \<Rightarrow> 0 | Some c \<Rightarrow> 1),
      anchorNode = pageAnchorNode,
      selectionToString = pageSelectionToString,
      nodeType = pageNodeType,
      parentElement = pageParentElement,
      tagName = pageTagName,
      innerTextOf = pageInnerText,
      replaceWithText = pageReplaceWithText,
      documentExecCommand = pageExecCommand,
      editorInnerHTML = (\<lambda>pg. Some (pageHTML pg)),
      focusEditor = (\<lambda>pg. pg),
      editorContainsAnchor = (\<lambda>pg. pageSel pg \<noteq> None),
      collapseToEditorEnd = (\<lambda>pg. pg\<lparr>pageSel := Some AtRootEnd\<rparr>),
      focusTextContent = pageFocusText,
      selectLastCharOfFocus = pageSelectLastChar\<rparr>"

text \<open>The component state with everything closed.\<close>

definition closedUi :: ui where
  "closedUi =
     \<lparr>showMenu = False, activeBlock = None, showSideControls = False,
      showBlockOptions = False, isDragging = False, dropIndicator = None,
      dropTargetInfo = None, showBubbleMenu = False, selectionRange = None,
      aiMode = AiNone, aiPrompt = [], emitted = [], timers = []\<rparr>"

text \<open>
  Three pages: a paragraph that reads \<open>Title/\<close> with the caret after the slash; a
  paragraph whose visible text is \<open>x &lt; y\<close>, all of it selected; and \<open>Hello world\<close>
  with \<open>world\<close> selected.
\<close>

definition titlePage :: page where
  "titlePage = \<lparr>blockTag = ''P'', inlines = [Txt ''Title/''], pageSel = Some (InText 0 6 6)\<rparr>"

definition entityPage :: page where
  "entityPage = \<lparr>blockTag = ''P'', inlines = [Txt ''x &lt; y''], pageSel = Some (InText 0 0 8)\<rparr>"

definition helloPage :: page where
  "helloPage = \<lparr>blockTag = ''P'', inlines = [Txt ''Hello world''], pageSel = Some (InText 0 6 11)\<rparr>"

text \<open>The content \<open><p>one two three</p>\<close>.\<close>

definition threeWordsPage :: page where
  "threeWordsPage = \<lparr>blockTag = ''P'', inlines = [Txt ''one two three''], pageSel = None\<rparr>"

chapter \<open>Verified properties\<close>

section \<open>Lists of child nodes\<close>


lemma nextSibling_split:
  "t \<notin> set pre \<Longrightarrow>
     nextSibling (pre @ t # post) t = (case post of [] \<Rightarrow> None | q # _ \<Rightarrow> Some q)"
proof (induction pre)
  case Nil
  then show ?case by (cases post) auto
next
  case (Cons x pre)
  then show ?case by (cases "pre @ t # post") auto
qed


lemma placeBefore_split:
  "q \<notin> set xs \<Longrightarrow> placeBefore n q (xs @ q # ys) = xs @ n # q # ys"
  by (induction xs) auto

lemma remove1_split:
  "remove1 a (pre @ t # post) = remove1 a pre @ t # remove1 a post"
  if "distinct (pre @ t # post)" "a \<noteq> t"
proof (cases "a \<in> set pre")
  case True
  then have "a \<notin> set post" using that by auto
  then show ?thesis using True by (simp add: remove1_append remove1_idem)
next
  case False
  then show ?thesis using that by (simp add: remove1_append remove1_idem)
qed

lemma insertBefore_target:
  assumes d: "distinct (pre @ t # post)" and ne: "a \<noteq> t"
  shows "insertBefore a (Some t) (pre @ t # post) = Inr (remove1 a pre @ a # t # remove1 a post)"
proof -
  have "t \<notin> set (remove1 a pre)" using d by (auto dest: notin_set_remove1)
  then show ?thesis
    using ne by (simp add: insertBefore_def remove1_split [OF d ne] placeBefore_split)
qed

lemma insertBefore_after_target:
  assumes d: "distinct (pre @ t # post)" and ne: "a \<noteq> t"
  shows "insertBefore a (nextSibling (pre @ t # post) t) (pre @ t # post)
           = Inr (remove1 a pre @ t # a # remove1 a post)"
proof -
  let ?kids = "pre @ t # post"
  have t: "t \<notin> set pre" using d by auto
  have ns: "nextSibling ?kids t = (case post of [] \<Rightarrow> None | q # _ \<Rightarrow> Some q)"
    by (rule nextSibling_split [OF t])
  have rm: "remove1 a ?kids = remove1 a pre @ t # remove1 a post"
    by (rule remove1_split [OF d ne])
  show ?thesis
  proof (cases post)
    case Nil
    then show ?thesis using ns rm by (simp add: insertBefore_def appendChild_def)
  next
    case (Cons q post')
    have q: "q \<notin> set (remove1 a pre @ [t])"
      using d Cons by (auto dest: notin_set_remove1)
    show ?thesis
    proof (cases "q = a")
      case True
      have a: "a \<notin> set (pre @ [t])" using d Cons True ne by auto
      have nsa: "nextSibling ?kids a = (case post' of [] \<Rightarrow> None | q' # _ \<Rightarrow> Some q')"
        using nextSibling_split [OF a, of post'] Cons True by simp
      have rmp: "remove1 a post = post'" using Cons True by simp
      show ?thesis
      proof (cases post')
        case Nil
        then show ?thesis
          using ns nsa rm rmp Cons True by (simp add: insertBefore_def appendChild_def)
      next
        case (Cons q' post'')
        have "q' \<notin> set (remove1 a pre @ [t])"
          using d \<open>post = q # post'\<close> Cons by (auto dest: notin_set_remove1)
        from placeBefore_split [OF this, of a post'']
        show ?thesis
          using ns nsa rm rmp \<open>post = q # post'\<close> True Cons by (simp add: insertBefore_def)
      qed
    next
      case False
      have rmp: "remove1 a post = q # remove1 a post'" using Cons False by simp
      from placeBefore_split [OF q, of a "remove1 a post'"]
      show ?thesis
        using ns rm rmp Cons False by (simp add: insertBefore_def)
    qed
  qed
qed

lemma innerHTMLOf_cong:
  "childNodes e' = childNodes e \<Longrightarrow> outerHTML e' = outerHTML e \<Longrightarrow> innerHTMLOf e' = innerHTMLOf e"
  by (simp add: innerHTMLOf_def)

lemma nextSibling_in_set: "nextSibling xs a = Some q \<Longrightarrow> q \<in> set xs"
  by (induction xs a rule: nextSibling.induct) (auto split: if_splits)

lemma insertBefore_child: "r \<in> set kids \<Longrightarrow> \<exists>ks. insertBefore n (Some r) kids = Inr ks"
  by (simp add: insertBefore_def split: option.splits)

lemma updateActiveBlock_menus:
  "showMenu (updateActiveBlock e) = showMenu e"
  "showBubbleMenu (updateActiveBlock e) = showBubbleMenu e"
  "emitted (updateActiveBlock e) = emitted e"
  by (simp_all add: updateActiveBlock_def hideSideControls_def
      split: option.splits list.splits ancestor.splits)

lemma handleAddNextLine_result:
  assumes "activeBlock e = Some a" "mounted e"
  shows "\<exists>kids. (case nextSibling (childNodes e) a of
                    Some nxt \<Rightarrow> insertBefore (nextNode e) (Some nxt) (childNodes e)
                  | None \<Rightarrow> Inr (appendChild (nextNode e) (childNodes e))) = Inr kids"
proof (cases "nextSibling (childNodes e) a")
  case None
  then show ?thesis by simp
next
  case (Some nxt)
  then show ?thesis using insertBefore_child [OF nextSibling_in_set [OF Some]] by simp
qed

lemma handleAddNextLine_total: "\<exists>e'. handleAddNextLine e = Inr e'"
proof (cases "activeBlock e")
  case None
  then show ?thesis by (simp add: handleAddNextLine_def)
next
  case (Some a)
  show ?thesis
  proof (cases "mounted e")
    case False
    then show ?thesis using Some by (simp add: handleAddNextLine_def)
  next
    case True
    from handleAddNextLine_result [OF Some True] obtain kids where
      "(case nextSibling (childNodes e) a of
          Some nxt \<Rightarrow> insertBefore (nextNode e) (Some nxt) (childNodes e)
        | None \<Rightarrow> Inr (appendChild (nextNode e) (childNodes e))) = Inr kids" ..
    then show ?thesis using Some True by (simp add: handleAddNextLine_def Let_def)
  qed
qed

lemma handleAddNextLine_keeps:
  assumes "handleAddNextLine e = Inr e'"
  shows "showBubbleMenu e' = showBubbleMenu e" "emitted e' = emitted e"
  using assms
  by (auto simp: handleAddNextLine_def Let_def updateActiveBlock_menus
      split: option.splits if_splits sum.splits)


section \<open>Running the small browser\<close>

lemmas page_defs =
  smallBrowser_def pageAnchorNode_def pageNodeType_def pageParentElement_def pageTagName_def
  pageInnerText_def pageReplaceWithText_def pageSelectionToString_def pageInsertHTML_def
  pageDelete_def pageExecCommand_def pageFocusText_def pageSelectLastChar_def pageHTML_def
  pageText_def childAt_def parseInline_def nonEmptyTxt_def lowerTag_def currentHTML_def
  anchorElement_def startsWith_def endsWith_def


section \<open>Content synchronizer: the decision rule\<close>

lemma assignHTML_neq: "assignHTML content ed \<noteq> ed"
proof
  assume "assignHTML content ed = ed"
  then have "surfaceWrites (assignHTML content ed) = surfaceWrites ed" by simp
  then show False by (simp add: assignHTML_def)
qed

text \<open>
  Claim C1.  For every supplied content string: if it is identical to the current
  serialization nothing happens; if the surface is not focused the serialization is
  overwritten with the supplied string; if the surface is focused it is overwritten
  exactly when the supplied string is empty or its length differs from the current one
  by more than 10; in every other case the surface is left as it was.  Supplying the
  empty string always leaves an empty surface, and with the focused content
  \<open><p>Hello</p>\<close> the string \<open><p>Hell</p>\<close> does not overwrite.
\<close>

theorem sync_decision_rule:
  assumes "syncEffect content (Some ed) = Some ed'"
  shows "(content = surfaceHTML ed \<longrightarrow> ed' = ed)
       \<and> (content \<noteq> surfaceHTML ed \<and> \<not> surfaceFocused ed \<longrightarrow> ed' = assignHTML content ed)
       \<and> (content \<noteq> surfaceHTML ed \<and> surfaceFocused ed \<longrightarrow>
            (ed' = assignHTML content ed \<longleftrightarrow>
               content = [] \<or> 10 < \<bar>int (length content) - int (length (surfaceHTML ed))\<bar>))
       \<and> (ed' \<noteq> assignHTML content ed \<longrightarrow> ed' = ed)
       \<and> (content = [] \<longrightarrow> surfaceHTML ed' = [])
       \<and> syncEffect ''<p>Hell</p>''
            (Some \<lparr>surfaceHTML = ''<p>Hello</p>'', surfaceFocused = True, surfaceWrites = []\<rparr>)
          = Some \<lparr>surfaceHTML = ''<p>Hello</p>'', surfaceFocused = True, surfaceWrites = []\<rparr>"
  using assms assignHTML_neq [of content ed]
  by (auto simp: syncEffect_def Let_def assignHTML_def split: if_splits)

theorem sync_decision_rule_witness:
  "syncEffect ''<p>An entirely new draft</p>''
     (Some \<lparr>surfaceHTML = ''<p>Hello</p>'', surfaceFocused = True, surfaceWrites = []\<rparr>)
   = Some \<lparr>surfaceHTML = ''<p>An entirely new draft</p>'', surfaceFocused = True,
            surfaceWrites = [''<p>An entirely new draft</p>'']\<rparr>
   \<and> syncEffect ''<p>Hi</p>''
     (Some \<lparr>surfaceHTML = ''<p>Hello</p>'', surfaceFocused = False, surfaceWrites = []\<rparr>)
   = Some \<lparr>surfaceHTML = ''<p>Hi</p>'', surfaceFocused = False, surfaceWrites = [''<p>Hi</p>'']\<rparr>
   \<and> syncEffect ''''
     (Some \<lparr>surfaceHTML = ''<p>Hello</p>'', surfaceFocused = True, surfaceWrites = []\<rparr>)
   = Some \<lparr>surfaceHTML = '''', surfaceFocused = True, surfaceWrites = ['''']\<rparr>
   \<and> syncEffect ''<p>Hello</p>''
     (Some \<lparr>surfaceHTML = ''<p>Hello</p>'', surfaceFocused = False, surfaceWrites = []\<rparr>)
   = Some \<lparr>surfaceHTML = ''<p>Hello</p>'', surfaceFocused = False, surfaceWrites = []\<rparr>"
proof -
  let ?e = "\<lparr>surfaceHTML = ''<p>Hello</p>'', surfaceFocused = True, surfaceWrites = []\<rparr>"
  let ?u = "\<lparr>surfaceHTML = ''<p>Hello</p>'', surfaceFocused = False, surfaceWrites = []\<rparr>"
  have a: "syncEffect ''<p>An entirely new draft</p>'' (Some ?e)
             = Some (assignHTML ''<p>An entirely new draft</p>'' ?e)"
    by (simp add: syncEffect_def)
  have b: "syncEffect ''<p>Hi</p>'' (Some ?u) = Some (assignHTML ''<p>Hi</p>'' ?u)"
    by (simp add: syncEffect_def)
  have c: "syncEffect '''' (Some ?e) = Some (assignHTML '''' ?e)"
    by (simp add: syncEffect_def)
  have d: "syncEffect ''<p>Hello</p>'' (Some ?u) = Some ?u"
    by (simp add: syncEffect_def)
  show ?thesis
    using sync_decision_rule [OF a] sync_decision_rule [OF b] sync_decision_rule [OF c]
      sync_decision_rule [OF d] a b c d
    by (simp add: assignHTML_def)
qed

section \<open>Insert-next and the change callback\<close>

text \<open>
  Claim C2 says that every block operation re-emits the new serialization through
  \<open>onChange\<close> before its handler returns, insert-next in particular.
  \<open>handleBlockAction\<close> and \<open>handleDrop\<close> do; \<open>handleAddNextLine\<close> inserts the empty
  paragraph, moves the caret into it, recomputes the active block and opens the slash
  menu, but never calls \<open>onChange\<close> (\<open>handleAddNextLine_keeps\<close>).  On the three
  paragraphs with the caret in A: the document changes and nothing is emitted, whereas
  duplicating A emits the new serialization.
\<close>

theorem insert_next_line_emits_nothing:
  "(case handleAddNextLine docABC of
      Inl err \<Rightarrow> False
    | Inr e' \<Rightarrow>
        childNodes e' = [0, 3, 1, 2]
        \<and> innerHTMLOf e' = ''<p>A</p><p><br></p><p>B</p><p>C</p>''
        \<and> activeBlock e' = Some 3
        \<and> showMenu e'
        \<and> emitted e' = [])
   \<and> innerHTMLOf docABC = ''<p>A</p><p>B</p><p>C</p>''
   \<and> (case handleBlockAction Duplicate docABC of
      Inl err \<Rightarrow> False
    | Inr e' \<Rightarrow>
        childNodes e' = [0, 3, 1, 2]
        \<and> emitted e' = [''<p>A</p><p>A</p><p>B</p><p>C</p>''])"
  by (simp add: handleAddNextLine_def handleBlockAction_def blockMutation_def docABC_def
      mountEditor_def insertBefore_def appendChild_def updateActiveBlock_def
      hideSideControls_def innerHTMLOf_def blockHTML_def onChange_def later_def Let_def)

theorem insert_next_line_emits_nothing_witness:
  "(case handleAddNextLine docABC of Inl err \<Rightarrow> False | Inr e' \<Rightarrow> emitted e' = [])"
  using insert_next_line_emits_nothing by (auto split: sum.splits)


section \<open>Drag-and-drop reorder\<close>

lemma scan_invariant:
  fixes source :: node and y :: rat and rects :: "node \<Rightarrow> rect"
  defines "gap \<equiv> \<lambda>x. \<bar>y - centerOf (rects x)\<bar>"
  defines "I \<equiv> \<lambda>seen acc.
     (case acc of
        (None, md) \<Rightarrow> md = None \<and> (\<forall>x\<in>seen. x \<noteq> source \<longrightarrow> \<not> gap x < 150)
      | (Some c, md) \<Rightarrow> c \<in> seen \<and> c \<noteq> source \<and> md = Some (gap c) \<and> gap c < 150
                          \<and> (\<forall>x\<in>seen. x \<noteq> source \<longrightarrow> gap c \<le> gap x))"
  assumes "I seen acc"
  shows "I (seen \<union> set xs) (foldl (scanChild source y rects) acc xs)"
  using assms(3)
proof (induction xs arbitrary: seen acc)
  case Nil
  then show ?case by simp
next
  case (Cons x xs)
  have step: "I (insert x seen) (scanChild source y rects acc x)"
    using Cons.prems unfolding I_def gap_def scanChild_def Let_def
    by (cases acc; cases "fst acc") (auto split: option.splits)
  from Cons.IH [OF step] show ?case by simp
qed

lemma scan_result:
  fixes source :: node and y :: rat and rects :: "node \<Rightarrow> rect"
  shows "case fst (foldl (scanChild source y rects) (None, None) xs) of
           None \<Rightarrow> \<forall>x\<in>set xs. x \<noteq> source \<longrightarrow> \<not> \<bar>y - centerOf (rects x)\<bar> < 150
         | Some c \<Rightarrow> c \<in> set xs \<and> c \<noteq> source \<and> \<bar>y - centerOf (rects c)\<bar> < 150
                     \<and> (\<forall>x\<in>set xs. x \<noteq> source \<longrightarrow>
                           \<bar>y - centerOf (rects c)\<bar> \<le> \<bar>y - centerOf (rects x)\<bar>)"
  using scan_invariant [of "{}" source y rects "(None, None)" xs]
  by (cases "foldl (scanChild source y rects) (None, None) xs")
     (auto split: option.splits)

lemma dragOver_target:
  assumes "isDragging e" "mounted e" "activeBlock e = Some a"
  shows "case dropTargetInfo (handleDragOver y rects e) of
           None \<Rightarrow> \<forall>c\<in>set (childNodes e). isElement e c \<and> c \<noteq> a \<longrightarrow>
                       \<not> \<bar>y - centerOf (rects c)\<bar> < 150
         | Some (t, pos) \<Rightarrow>
             t \<in> set (childNodes e) \<and> isElement e t \<and> t \<noteq> a
             \<and> \<bar>y - centerOf (rects t)\<bar> < 150
             \<and> (\<forall>c\<in>set (childNodes e). isElement e c \<and> c \<noteq> a \<longrightarrow>
                    \<bar>y - centerOf (rects t)\<bar> \<le> \<bar>y - centerOf (rects c)\<bar>)
             \<and> (pos = Before \<longleftrightarrow> y < centerOf (rects t))
             \<and> (pos = After \<longleftrightarrow> \<not> y < centerOf (rects t))"
proof -
  let ?children = "filter (isElement e) (childNodes e)"
  let ?closest = "fst (foldl (scanChild a y rects) (None, None) ?children)"
  note sr = scan_result [where source = a and y = y and rects = rects and xs = "?children"]
  show ?thesis
  proof (cases ?closest)
    case None
    then have "dropTargetInfo (handleDragOver y rects e) = None"
      using assms by (simp add: handleDragOver_def Let_def)
    then show ?thesis using sr None by simp
  next
    case (Some c)
    then have "dropTargetInfo (handleDragOver y rects e)
                 = Some (c, if y < centerOf (rects c) then Before else After)"
      using assms by (simp add: handleDragOver_def Let_def)
    then show ?thesis using sr Some by simp
  qed
qed

lemma drop_reinserts:
  assumes "isDragging e" "mounted e" "activeBlock e = Some a" "dropTargetInfo e = Some (t, pos)"
    and kids: "childNodes e = pre @ t # post" and d: "distinct (childNodes e)" and ne: "a \<noteq> t"
  shows "case handleDrop e of
           Inl err \<Rightarrow> False
         | Inr e' \<Rightarrow> childNodes e' =
             (if pos = Before then remove1 a pre @ a # t # remove1 a post
              else remove1 a pre @ t # a # remove1 a post)"
proof -
  have d': "distinct (pre @ t # post)" using d kids by simp
  show ?thesis
    using assms(1-4) insertBefore_target [OF d' ne] insertBefore_after_target [OF d' ne]
    by (simp add: handleDrop_def kids Let_def later_def onChange_def handleDragEnd_def)
qed

text \<open>
  Claim C3.  During drag-over the drop target is, among the element children of the
  editable root other than the dragged block, one whose vertical center is nearest to
  the pointer, provided that distance is below 150 px (no target otherwise); the
  orientation is "before" when the pointer is above the target's vertical midpoint and
  "after" otherwise.  On drop with a resolved target the dragged block is reinserted
  immediately before or after the target: with blocks A, B, C, dragging A onto
  (C, before) gives B, A, C.
\<close>

theorem drag_and_drop_reorder:
  "(isDragging e \<and> mounted e \<and> activeBlock e = Some a \<longrightarrow>
      (case dropTargetInfo (handleDragOver y rects e) of
         None \<Rightarrow> \<forall>c\<in>set (childNodes e). isElement e c \<and> c \<noteq> a \<longrightarrow>
                     \<not> \<bar>y - centerOf (rects c)\<bar> < 150
       | Some (t, pos) \<Rightarrow>
           t \<in> set (childNodes e) \<and> isElement e t \<and> t \<noteq> a
           \<and> \<bar>y - centerOf (rects t)\<bar> < 150
           \<and> (\<forall>c\<in>set (childNodes e). isElement e c \<and> c \<noteq> a \<longrightarrow>
                  \<bar>y - centerOf (rects t)\<bar> \<le> \<bar>y - centerOf (rects c)\<bar>)
           \<and> (pos = Before \<longleftrightarrow> y < centerOf (rects t))
           \<and> (pos = After \<longleftrightarrow> \<not> y < centerOf (rects t))))
   \<and> (isDragging e \<and> mounted e \<and> activeBlock e = Some a \<and> dropTargetInfo e = Some (el, p)
        \<and> childNodes e = pre @ el # post \<and> distinct (childNodes e) \<and> a \<noteq> el \<longrightarrow>
      (case handleDrop e of
         Inl err \<Rightarrow> False
       | Inr e' \<Rightarrow> childNodes e' =
           (if p = Before then remove1 a pre @ a # el # remove1 a post
            else remove1 a pre @ el # a # remove1 a post)))
   \<and> (case handleDrop (docABC\<lparr>isDragging := True, dropTargetInfo := Some (2, Before)\<rparr>) of
         Inl err \<Rightarrow> False
       | Inr e' \<Rightarrow> childNodes e' = [1, 0, 2] \<and> innerHTMLOf e' = ''<p>B</p><p>A</p><p>C</p>'')"
proof (intro conjI impI)
  assume "isDragging e \<and> mounted e \<and> activeBlock e = Some a"
  then show "case dropTargetInfo (handleDragOver y rects e) of
         None \<Rightarrow> \<forall>c\<in>set (childNodes e). isElement e c \<and> c \<noteq> a \<longrightarrow>
                     \<not> \<bar>y - centerOf (rects c)\<bar> < 150
       | Some (t, pos) \<Rightarrow>
           t \<in> set (childNodes e) \<and> isElement e t \<and> t \<noteq> a
           \<and> \<bar>y - centerOf (rects t)\<bar> < 150
           \<and> (\<forall>c\<in>set (childNodes e). isElement e c \<and> c \<noteq> a \<longrightarrow>
                  \<bar>y - centerOf (rects t)\<bar> \<le> \<bar>y - centerOf (rects c)\<bar>)
           \<and> (pos = Before \<longleftrightarrow> y < centerOf (rects t))
           \<and> (pos = After \<longleftrightarrow> \<not> y < centerOf (rects t))"
    using dragOver_target [of e a y rects] by blast
next
  assume "isDragging e \<and> mounted e \<and> activeBlock e = Some a \<and> dropTargetInfo e = Some (el, p)
        \<and> childNodes e = pre @ el # post \<and> distinct (childNodes e) \<and> a \<noteq> el"
  then show "case handleDrop e of
         Inl err \<Rightarrow> False
       | Inr e' \<Rightarrow> childNodes e' =
           (if p = Before then remove1 a pre @ a # el # remove1 a post
            else remove1 a pre @ el # a # remove1 a post)"
    using drop_reinserts [of e a el p pre post] by blast
next
  show "case handleDrop (docABC\<lparr>isDragging := True, dropTargetInfo := Some (2, Before)\<rparr>) of
         Inl err \<Rightarrow> False
       | Inr e' \<Rightarrow> childNodes e' = [1, 0, 2] \<and> innerHTMLOf e' = ''<p>B</p><p>A</p><p>C</p>''"
    by (simp add: handleDrop_def docABC_def mountEditor_def insertBefore_def Let_def later_def onChange_def
        handleDragEnd_def innerHTMLOf_def blockHTML_def)
qed

theorem drag_and_drop_reorder_witness:
  "dropTargetInfo (handleDragOver 95 rowRects (docABC\<lparr>isDragging := True\<rparr>)) = Some (2, Before)
   \<and> (case handleDrop (docABC\<lparr>isDragging := True, dropTargetInfo := Some (1, After)\<rparr>) of
         Inl err \<Rightarrow> False
       | Inr e' \<Rightarrow> childNodes e' = [1, 0, 2])"
proof -
  let ?e = "docABC\<lparr>isDragging := True\<rparr>"
  let ?d = "docABC\<lparr>isDragging := True, dropTargetInfo := Some (1, After)\<rparr>"
  have over: "dropTargetInfo (handleDragOver 95 rowRects ?e) = Some (2, Before)"
    by (simp add: handleDragOver_def docABC_def mountEditor_def Let_def scanChild_def rowRects_def centerOf_def
        rectBottom_def)
  have h1: "isDragging ?e \<and> mounted ?e \<and> activeBlock ?e = Some 0"
    by (simp add: docABC_def mountEditor_def)
  have h2: "isDragging ?d \<and> mounted ?d \<and> activeBlock ?d = Some 0
        \<and> dropTargetInfo ?d = Some (1, After)
        \<and> childNodes ?d = [0] @ 1 # [2] \<and> distinct (childNodes ?d) \<and> (0::nat) \<noteq> 1"
    by (simp add: docABC_def mountEditor_def)
  from drag_and_drop_reorder [of ?e 0 95 rowRects]
  have "case dropTargetInfo (handleDragOver 95 rowRects ?e) of
          None \<Rightarrow> True
        | Some (t, pos) \<Rightarrow> (pos = Before \<longleftrightarrow> 95 < centerOf (rowRects t))"
    using h1 by (auto split: option.splits)
  moreover from drag_and_drop_reorder [of ?d 0 _ _ 1 After "[0]" "[2]"]
  have "case handleDrop ?d of Inl err \<Rightarrow> False | Inr e' \<Rightarrow> childNodes e' = [1, 0, 2]"
    using h2 by (auto split: sum.splits)
  ultimately show ?thesis using over by simp
qed


section \<open>The two popups\<close>

lemma handleInput_bubble: "showBubbleMenu (handleInput e) = showBubbleMenu e"
  by (simp add: handleInput_def Let_def updateActiveBlock_menus onChange_def
      split: option.splits)

lemma checkSelectionFrame_menu: "showMenu (checkSelectionFrame m e) = showMenu e"
  by (simp add: checkSelectionFrame_def Let_def updateActiveBlock_menus split: option.splits)

text \<open>
  Claim C4 says that at most one of the two popups is open in every reachable state and
  that opening either closes the other.  The component keeps two separate flags and no
  handler that opens one popup touches the other's flag.  The session \<open>slashSession\<close>
  ends with both open: typing a slash at the end of the first paragraph opens the slash
  menu, and selecting that slash with the keyboard opens the bubble menu.
\<close>

theorem both_popups_open_counterexample:
  "\<not> isl (run slashSession mountedABC)
   \<and> showMenu (projr (run slashSession mountedABC))
   \<and> showBubbleMenu (projr (run slashSession mountedABC))"
  by (simp add: slashSession_def fire_def mountedABC_def mountEditor_def handleInput_def
      checkSelection_def checkSelectionFrame_def runTask_def updateActiveBlock_def
      hideSideControls_def caretAfterSlash_def slashSelected_def onChange_def later_def
      innerHTMLOf_def endsWith_def trim_def jsSpace_def Let_def)

text \<open>
  Claim C4, amended.  Both popups are closed when the editor mounts, and each is
  tracked by a flag of its own: the handlers that open the slash menu (\<open>handleInput\<close>,
  \<open>handleAddNextLine\<close>) leave the bubble menu as it was, and the one that opens the
  bubble menu (the body of \<open>checkSelection\<close>) leaves the slash menu as it was.
\<close>

theorem popups_are_independent:
  "\<not> showMenu (mountEditor kids html fresh) \<and> \<not> showBubbleMenu (mountEditor kids html fresh)
   \<and> showBubbleMenu (handleInput e) = showBubbleMenu e
   \<and> (case handleAddNextLine e of
         Inl err \<Rightarrow> False
       | Inr e' \<Rightarrow> showBubbleMenu e' = showBubbleMenu e)
   \<and> showMenu (checkSelectionFrame m e) = showMenu e"
proof -
  obtain e' where e': "handleAddNextLine e = Inr e'" using handleAddNextLine_total by blast
  show ?thesis
    using handleAddNextLine_keeps(1) [OF e'] e'
    by (simp add: mountEditor_def handleInput_bubble checkSelectionFrame_menu)
qed

theorem popups_are_independent_witness:
  "showBubbleMenu (handleInput (docABC\<lparr>showBubbleMenu := True\<rparr>))
   \<and> (case handleAddNextLine (docABC\<lparr>showBubbleMenu := True\<rparr>) of
         Inl err \<Rightarrow> False
       | Inr e' \<Rightarrow> showBubbleMenu e')
   \<and> showMenu (checkSelectionFrame AiNone (docABC\<lparr>showMenu := True\<rparr>))"
  using popups_are_independent [of _ _ _ "docABC\<lparr>showBubbleMenu := True\<rparr>"]
    popups_are_independent [of _ _ _ "docABC\<lparr>showMenu := True\<rparr>" AiNone]
  by (auto simp: docABC_def mountEditor_def split: sum.splits)


section \<open>The slash trigger and the menu entries\<close>

lemma blockTypes_heading:
  "map_of blockTypes ''Heading 1'' = Some (ExecCommand ''formatBlock'' (Some ''H1''))"
  by (simp add: blockTypes_def)

lemma execCommand_entry_document:
  "fst (runEntry B (ExecCommand command val) (d, u))
     = focusEditor B (documentExecCommand B command val d)"
  by (simp add: runEntry_def execCommand_def Let_def)

lemma insertHtml_deletes_trigger:
  assumes "editorInnerHTML B d \<noteq> None" "rangeCount B (focusEditor B d) \<noteq> 0"
    "editorContainsAnchor B (focusEditor B d)"
    "focusTextContent B (focusEditor B d) = Some text" "endsWith text ''/''"
  shows "fst (runEntry B (InsertHtml html) (d, u))
     = documentExecCommand B ''insertHTML'' (Some html)
         (documentExecCommand B ''delete'' None (selectLastCharOfFocus B (focusEditor B d)))"
  using assms by (auto simp: runEntry_def insertHtml_def Let_def)

text \<open>
  Claim C5 says that every menu entry chosen with the caret after a trailing slash
  deletes the slash before its effect, Heading 1 in particular.  Only \<open>insertHtml\<close>
  deletes it (\<open>insertHtml_deletes_trigger\<close>); the entries that call \<open>execCommand\<close>
  apply their command to the document as it is (\<open>execCommand_entry_document\<close>).  On a
  paragraph that reads \<open>Title/\<close> with the caret after the slash, choosing Heading 1
  gives the heading \<open>Title/\<close>: the menu is closed, the content is emitted, and the
  slash is still there.
\<close>

theorem heading_entry_keeps_slash:
  "pageHTML titlePage = ''<p>Title/</p>''
   \<and> pageFocusText titlePage = Some ''Title/''
   \<and> pageHTML (fst (chooseEntry smallBrowser ''Heading 1'' (titlePage, closedUi\<lparr>showMenu := True\<rparr>)))
       = ''<h1>Title/</h1>''
   \<and> emitted (snd (chooseEntry smallBrowser ''Heading 1'' (titlePage, closedUi\<lparr>showMenu := True\<rparr>)))
       = [''<h1>Title/</h1>'']
   \<and> \<not> showMenu (snd (chooseEntry smallBrowser ''Heading 1''
                        (titlePage, closedUi\<lparr>showMenu := True\<rparr>)))"
  by (simp add: chooseEntry_def blockTypes_heading runEntry_def execCommand_def page_defs
      titlePage_def closedUi_def onChange_def Let_def)

theorem heading_entry_keeps_slash_witness:
  "pageHTML (fst (chooseEntry smallBrowser ''Heading 1'' (titlePage, closedUi\<lparr>showMenu := True\<rparr>)))
       = ''<h1>Title/</h1>''"
  using heading_entry_keeps_slash by blast


section \<open>Invalid structural operations\<close>






section \<open>Release of the AI loading state\<close>

lemma handleAiImprove_fulfils: "snd (handleAiImprove replaceSelection ai host) = Fulfilled"
  by (cases ai) (simp_all add: handleAiImprove_def split: prod.splits)

lemma rejected_await_skips_reset: "handleAiAction_resume Rejected u = u"
  by (simp add: handleAiAction_resume_def)

text \<open>
  Claim C7.  After an AI action is submitted with a captured selection the bubble menu
  is in the loading state; whether the AI call resolves or throws, the promise that
  the host's \<open>handleAiImprove\<close> returns is fulfilled, so the rest of \<open>handleAiAction\<close>
  runs: the loading flag is reset and the menu is closed.  (\<open>handleAiAction\<close> itself has
  no cleanup for a rejected promise, see \<open>rejected_await_skips_reset\<close>; the promise
  it awaits never rejects.)
\<close>

theorem ai_loading_is_released:
  assumes "selectionRange u = Some r"
  shows "aiMode (fst (handleAiAction_begin instruction customPrompt True u)) = AiLoading
       \<and> (\<exists>prompt. snd (handleAiAction_begin instruction customPrompt True u) = Some (r, prompt))
       \<and> snd (handleAiImprove replaceSelection ai host) = Fulfilled
       \<and> aiMode (handleAiAction_resume (snd (handleAiImprove replaceSelection ai host))
                  (fst (handleAiAction_begin instruction customPrompt True u))) = AiNone
       \<and> \<not> showBubbleMenu (handleAiAction_resume (snd (handleAiImprove replaceSelection ai host))
                  (fst (handleAiAction_begin instruction customPrompt True u)))"
  using assms
  by (simp add: handleAiImprove_fulfils handleAiAction_begin_def handleAiAction_resume_def)

theorem ai_loading_is_released_witness:
  "aiMode (fst (handleAiAction_begin ''improve'' (Some ''Improve the writing quality.'') True
             (docABC\<lparr>showBubbleMenu := True, selectionRange := Some ''A''\<rparr>))) = AiLoading
   \<and> aiMode (handleAiAction_resume
               (snd (handleAiImprove (\<lambda>html d. (d, True)) Throws ((), [])))
               (fst (handleAiAction_begin ''improve'' (Some ''Improve the writing quality.'') True
                  (docABC\<lparr>showBubbleMenu := True, selectionRange := Some ''A''\<rparr>)))) = AiNone
   \<and> \<not> showBubbleMenu (handleAiAction_resume
               (snd (handleAiImprove (\<lambda>html d. (d, True)) Throws ((), [])))
               (fst (handleAiAction_begin ''improve'' (Some ''Improve the writing quality.'') True
                  (docABC\<lparr>showBubbleMenu := True, selectionRange := Some ''A''\<rparr>))))"
proof -
  have h: "selectionRange (docABC\<lparr>showBubbleMenu := True, selectionRange := Some ''A''\<rparr>)
             = Some ''A''"
    by simp
  from ai_loading_is_released [OF h, of "''improve''" "Some ''Improve the writing quality.''"
      "\<lambda>html d. (d, True)" Throws "((), [])"]
  show ?thesis by blast
qed


section \<open>Inline code, toggled twice\<close>

lemma escapeText_append: "escapeText (a @ b) = escapeText a @ escapeText b"
  by (induction a) auto

lemma decodeEntities_plain: "CHR ''&'' \<notin> set s \<Longrightarrow> decodeEntities s = s"
  by (induction s) auto

lemma serialize_nonEmptyTxt: "concat (map serializeInline (nonEmptyTxt t)) = escapeText t"
  by (simp add: nonEmptyTxt_def)

lemma endsWith_append: "endsWith (xs @ t) t"
  by (simp add: endsWith_def)

lemma parse_inlineCodeHtml:
  assumes "CHR ''<'' \<notin> set text" "CHR ''&'' \<notin> set text"
  shows "parseInline (inlineCodeHtml text) = Some [CodeEl (''class=\"'' @ codeClass @ ''\"'') text]"
proof -
  have e: "endsWith (inlineCodeHtml text) ''</code>''"
    unfolding inlineCodeHtml_def using endsWith_append [of _ "''</code>''"]
    by (metis append.assoc)
  have r: "drop 6 (inlineCodeHtml text) = ''class=\"'' @ codeClass @ ''\">'' @ text @ ''</code>''"
    by (simp add: inlineCodeHtml_def)
  have a: "takeWhile (\<lambda>c. c \<noteq> CHR ''>'') (''class=\"'' @ codeClass @ ''\">'' @ text @ ''</code>'')
             = ''class=\"'' @ codeClass @ ''\"''"
    by (simp add: codeClass_def)
  have t: "drop 1 (dropWhile (\<lambda>c. c \<noteq> CHR ''>'') (''class=\"'' @ codeClass @ ''\">'' @ text @ ''</code>''))
             = text @ ''</code>''"
    by (simp add: codeClass_def)
  have s: "startsWith (inlineCodeHtml text) ''<code ''"
    by (simp add: startsWith_def inlineCodeHtml_def)
  have l: "CHR ''<'' \<in> set (inlineCodeHtml text)"
    by (simp add: inlineCodeHtml_def)
  show ?thesis
    unfolding parseInline_def Let_def r a t using e s l assms
    by (simp add: decodeEntities_plain)
qed

lemmas browser_ops =
  smallBrowser_def pageAnchorNode_def pageNodeType_def pageParentElement_def pageTagName_def
  pageInnerText_def pageReplaceWithText_def pageSelectionToString_def pageInsertHTML_def
  pageExecCommand_def currentHTML_def anchorElement_def

lemma childAt_mid: "inlines pg = pre @ x # post \<Longrightarrow> childAt pg (length pre) = Some x"
  by (simp add: childAt_def)

lemma toggle_unwraps:
  assumes i: "inlines q = lead @ CodeEl attrs x # rest"
    and sel: "pageSel q = Some (InText (length lead) m n)"
  shows "fst (toggleInlineCode smallBrowser (q, u))
           = q\<lparr>inlines := lead @ Txt x # rest, pageSel := Some (InBlock (length lead))\<rparr>"
  using sel
  by (simp add: toggleInlineCode_def browser_ops childAt_mid [OF i] Let_def i)

lemma toggle_wraps:
  assumes i: "inlines pg = pre @ Txt t # post"
    and sel: "pageSel pg = Some (InText (length pre) s e)"
    and x: "x = take (e - s) (drop s t)" "x \<noteq> []" "CHR ''<'' \<notin> set x" "CHR ''&'' \<notin> set x"
    and block: "blockTag pg \<noteq> ''CODE''"
  shows "fst (toggleInlineCode smallBrowser (pg, u))
           = pg\<lparr>inlines := (pre @ nonEmptyTxt (take s t))
                            @ CodeEl (''class=\"'' @ codeClass @ ''\"'') x
                            # (nonEmptyTxt (drop e t) @ post),
                 pageSel := Some (InText (length (pre @ nonEmptyTxt (take s t)))
                                    (length x) (length x))\<rparr>"
proof -
  have dr: "drop (Suc (length pre)) (inlines pg) = post" using i by simp
  have tk: "take (length pre) (inlines pg) = pre" using i by simp
  note p = parse_inlineCodeHtml [OF x(3,4)]
  have s: "pageSelectionToString pg = x"
    by (simp add: pageSelectionToString_def sel childAt_mid [OF i] x(1))
  show ?thesis
    using x(2) block
    by (simp add: toggleInlineCode_def wrapSelection_def smallBrowser_def s
        pageAnchorNode_def pageNodeType_def pageParentElement_def pageTagName_def
        pageInsertHTML_def pageExecCommand_def currentHTML_def anchorElement_def
        sel childAt_mid [OF i] p dr tk Let_def)
qed

lemma code_toggle_twice_plain:
  assumes i: "inlines pg = pre @ Txt t # post"
    and sel: "pageSel pg = Some (InText (length pre) s e)"
    and se: "s < e" "e \<le> length t"
    and plain: "CHR ''<'' \<notin> set t" "CHR ''&'' \<notin> set t"
    and block: "blockTag pg \<noteq> ''CODE''"
  shows "pageHTML (fst (toggleInlineCode smallBrowser (toggleInlineCode smallBrowser (pg, u))))
           = pageHTML pg"
proof -
  define a x b where "a = take s t" and "x = take (e - s) (drop s t)" and "b = drop e t"
  define lead rest where "lead = pre @ nonEmptyTxt a" and "rest = nonEmptyTxt b @ post"
  define pg1 where
    "pg1 = pg\<lparr>inlines := lead @ CodeEl (''class=\"'' @ codeClass @ ''\"'') x # rest,
               pageSel := Some (InText (length lead) (length x) (length x))\<rparr>"
  have x_ne: "x \<noteq> []" using se by (simp add: x_def)
  have "set x \<subseteq> set t"
    unfolding x_def by (meson set_drop_subset set_take_subset subset_trans)
  then have x_plain: "CHR ''<'' \<notin> set x" "CHR ''&'' \<notin> set x" using plain by auto
  have "x @ b = drop s t"
    unfolding x_def b_def using se
    by (metis add_diff_inverse_nat append_take_drop_id drop_drop less_imp_le_nat not_less
        add.commute)
  then have t_eq: "a @ x @ b = t" by (simp add: a_def)
  have first: "fst (toggleInlineCode smallBrowser (pg, u)) = pg1"
    using toggle_wraps [OF i sel x_def x_ne x_plain block, of u]
    by (simp add: pg1_def lead_def rest_def a_def b_def)
  obtain u1 where st1: "toggleInlineCode smallBrowser (pg, u) = (pg1, u1)"
    using first by (metis prod.collapse)
  have second: "fst (toggleInlineCode smallBrowser (pg1, u1))
                  = pg1\<lparr>inlines := lead @ Txt x # rest, pageSel := Some (InBlock (length lead))\<rparr>"
    by (rule toggle_unwraps) (simp_all add: pg1_def)
  have "concat (map serializeInline (lead @ Txt x # rest))
          = concat (map serializeInline pre) @ escapeText (a @ x @ b)
              @ concat (map serializeInline post)"
    by (simp add: lead_def rest_def serialize_nonEmptyTxt escapeText_append)
  also have "\<dots> = concat (map serializeInline (inlines pg))"
    unfolding t_eq i by simp
  finally show ?thesis
    unfolding st1 second pageHTML_def by (simp add: pg1_def)
qed

lemma code_toggle_twice_hello:
  "pageHTML helloPage = ''<p>Hello world</p>''
   \<and> pageHTML (fst (toggleInlineCode smallBrowser (helloPage, closedUi)))
       = ''<p>Hello '' @ inlineCodeHtml ''world'' @ ''</p>''
   \<and> pageHTML (fst (toggleInlineCode smallBrowser
                      (toggleInlineCode smallBrowser (helloPage, closedUi))))
       = ''<p>Hello world</p>''"
  by (simp add: toggleInlineCode_def wrapSelection_def page_defs helloPage_def closedUi_def
      onChange_def Let_def inlineCodeHtml_def codeClass_def)

text \<open>
  Claim C8 says that toggling inline code twice on a non-empty selection gives back
  the original HTML.  In the small browser it does for every selection of text free
  of \<open><\<close> and \<open>&\<close> inside a text node (\<open>code_toggle_twice_plain\<close>).  But the
  selected text is pasted into the HTML given to \<open>insertHTML\<close> as it is, so text that
  reads as markup is parsed: with the visible text \<open>x &lt; y\<close> selected (serialized
  \<open>x &amp;lt; y\<close>), the first toggle produces a \<open>code\<close> element whose text is \<open>x < y\<close>,
  and the second leaves the paragraph \<open>x &lt; y\<close>, which is not the original.
\<close>

theorem code_toggle_twice_decodes_entities:
  "pageHTML entityPage = ''<p>x &amp;lt; y</p>''
   \<and> pageSelectionToString entityPage = ''x &lt; y''
   \<and> pageHTML (fst (toggleInlineCode smallBrowser (entityPage, closedUi)))
       = ''<p>'' @ inlineCodeHtml ''x &lt; y'' @ ''</p>''
   \<and> inlines (fst (toggleInlineCode smallBrowser (entityPage, closedUi)))
       = [CodeEl (''class=\"'' @ codeClass @ ''\"'') ''x < y'']
   \<and> pageHTML (fst (toggleInlineCode smallBrowser
                      (toggleInlineCode smallBrowser (entityPage, closedUi))))
       = ''<p>x &lt; y</p>''"
  by (simp add: toggleInlineCode_def wrapSelection_def page_defs entityPage_def closedUi_def
      onChange_def Let_def inlineCodeHtml_def codeClass_def)

theorem code_toggle_twice_decodes_entities_witness:
  "pageHTML (fst (toggleInlineCode smallBrowser
                      (toggleInlineCode smallBrowser (entityPage, closedUi))))
       \<noteq> pageHTML entityPage"
  using code_toggle_twice_decodes_entities by simp


section \<open>Word count and reading time\<close>

lemma tokenStarts_nonws_prefix:
  "\<forall>c\<in>set xs. \<not> ws c \<Longrightarrow> xs \<noteq> [] \<Longrightarrow>
     tokenStarts ws p (xs @ ys) = (if p then 1 else 0) + tokenStarts ws False ys"
  by (induction xs arbitrary: p) (auto, (case_tac xs; simp)+)

lemma tokenStarts_ws_suffix:
  "\<forall>c\<in>set ys. ws c \<Longrightarrow> tokenStarts ws p (xs @ ys) = tokenStarts ws p xs"
proof (induction xs arbitrary: p)
  case Nil
  then show ?case by (induction ys arbitrary: p) auto
next
  case (Cons a xs)
  then show ?case by simp
qed

lemma tokenStarts_dropWhile:
  "tokenStarts ws True (dropWhile ws s) = tokenStarts ws True s"
  by (induction s) auto

lemma tokenStarts_nonws_only:
  "\<forall>c\<in>set xs. \<not> ws c \<Longrightarrow> tokenStarts ws True xs = (if xs = [] then 0 else 1)"
  using tokenStarts_nonws_prefix [of xs ws True "[]"] by auto

lemma countNonempty_splitWs:
  "length (filter (\<lambda>w. length w > 0) (splitWs ws s)) = tokenStarts ws True s"
proof (induction ws s rule: splitWs.induct)
  case (1 ws s)
  let ?pre = "takeWhile (\<lambda>c. \<not> ws c) s"
  let ?post = "dropWhile (\<lambda>c. \<not> ws c) s"
  have s: "?pre @ ?post = s" by simp
  have pre: "\<forall>c\<in>set ?pre. \<not> ws c" by (auto dest: set_takeWhileD)
  show ?case
  proof (cases ?post)
    case Nil
    then have eq: "?pre = s" using s by simp
    have "splitWs ws s = [s]"
      by (subst splitWs.simps) (simp add: Nil eq)
    moreover have "tokenStarts ws True s = (if s = [] then 0 else 1)"
      using tokenStarts_nonws_only [OF pre] eq by simp
    ultimately show ?thesis by simp
  next
    case (Cons r rest)
    have r: "ws r" using hd_dropWhile [of "\<lambda>c. \<not> ws c" s] Cons by auto
    have split: "splitWs ws s = ?pre # splitWs ws (dropWhile ws rest)"
      by (subst splitWs.simps) (simp add: Cons)
    have ih: "length (filter (\<lambda>w. length w > 0) (splitWs ws (dropWhile ws rest)))
                = tokenStarts ws True rest"
      using "1.IH" [OF Cons] by (simp add: tokenStarts_dropWhile)
    have tail: "tokenStarts ws p (r # rest) = tokenStarts ws True rest" for p
      using r by simp
    have "tokenStarts ws True s = tokenStarts ws True (?pre @ r # rest)"
      using s Cons by simp
    also have "\<dots> = (if ?pre = [] then 0 else 1) + tokenStarts ws True rest"
    proof (cases "?pre = []")
      case True
      then show ?thesis using r by simp
    next
      case False
      show ?thesis
        unfolding tokenStarts_nonws_prefix [OF pre False, of True "r # rest"] tail
        using False by simp
    qed
    finally show ?thesis using split ih by simp
  qed
qed

lemma tokenStarts_trim: "tokenStarts ws True (trim ws s) = tokenStarts ws True s"
proof -
  let ?t = "dropWhile ws s"
  have t: "rev (dropWhile ws (rev ?t)) @ rev (takeWhile ws (rev ?t)) = ?t"
    by (metis rev_append rev_rev_ident takeWhile_dropWhile_id)
  have "\<forall>c\<in>set (rev (takeWhile ws (rev ?t))). ws c"
    by (auto dest: set_takeWhileD)
  from tokenStarts_ws_suffix [OF this, of True "rev (dropWhile ws (rev ?t))"]
  have "tokenStarts ws True (trim ws s) = tokenStarts ws True ?t"
    unfolding trim_def t by simp
  then show ?thesis by (simp add: tokenStarts_dropWhile)
qed

lemma startsAt_Cons:
  "startsAt ws p (c # cs) = (if \<not> ws c \<and> p then {0} else {}) \<union> Suc ` startsAt ws (ws c) cs"
proof (rule set_eqI)
  fix i
  show "i \<in> startsAt ws p (c # cs)
          \<longleftrightarrow> i \<in> (if \<not> ws c \<and> p then {0} else {}) \<union> Suc ` startsAt ws (ws c) cs"
  proof (cases i)
    case 0
    then show ?thesis by (auto simp: startsAt_def)
  next
    case (Suc j)
    then show ?thesis by (cases j) (auto simp: startsAt_def)
  qed
qed

lemma finite_startsAt: "finite (startsAt ws p s)"
  by (simp add: startsAt_def)

lemma tokenStarts_card: "tokenStarts ws p s = card (startsAt ws p s)"
proof (induction s arbitrary: p)
  case Nil
  then show ?case by (simp add: startsAt_def)
next
  case (Cons c cs)
  have disj: "(if \<not> ws c \<and> p then {0} else {}) \<inter> Suc ` startsAt ws (ws c) cs = {}"
    by auto
  have "card (startsAt ws p (c # cs))
          = card (if \<not> ws c \<and> p then {0::nat} else {}) + card (Suc ` startsAt ws (ws c) cs)"
    unfolding startsAt_Cons
    by (rule card_Un_disjoint) (auto simp: finite_startsAt)
  also have "card (Suc ` startsAt ws (ws c) cs) = card (startsAt ws (ws c) cs)"
    by (rule card_image) simp
  finally show ?case using Cons.IH [of "ws c"] by simp
qed

lemma specWordCount_tokenStarts: "specWordCount ws text = tokenStarts ws True text"
proof -
  have "startsAt ws True text
          = {i. i < length text \<and> \<not> ws (text ! i) \<and> (i = 0 \<or> ws (text ! (i - 1)))}"
    by (auto simp: startsAt_def)
  then show ?thesis
    unfolding specWordCount_def using tokenStarts_card [of ws True "text"] by simp
qed

lemma countWords_tokenStarts: "countWords ws text = tokenStarts ws True text"
  unfolding countWords_def countNonempty_splitWs tokenStarts_trim ..

lemma countWords_spec: "countWords ws text = specWordCount ws text"
  unfolding countWords_tokenStarts specWordCount_tokenStarts ..

lemma readingTimeOf_div: "readingTimeOf w = (w + 199) div 200"
proof -
  have "\<lceil>(of_nat w :: rat) / 200\<rceil> = - (- int w div 200)"
    using ceiling_divide_eq_div [of "int w" 200, where ?'a = rat] by simp
  then show ?thesis unfolding readingTimeOf_def by (simp; arith)
qed

text \<open>
  Claim C9.  The word count set by the statistics effect is the number of maximal runs
  of characters that are not white space in the plain text of the editor (the number
  of its non-empty tokens between white space), and the reading time is that count
  divided by 200, rounded up.  The content \<open><p>one two three</p>\<close>, whose plain text
  is \<open>one two three\<close>, gives 3 words and a reading time of 1.
\<close>

theorem word_count_and_reading_time:
  "statsEffect ws (Some text)
     = (specWordCount ws text, nat \<lceil>(of_nat (specWordCount ws text) :: rat) / 200\<rceil>)
   \<and> pageHTML threeWordsPage = ''<p>one two three</p>''
   \<and> statsEffect jsSpace (Some (pageInnerText threeWordsPage RootNode)) = (3, 1)"
proof (intro conjI)
  have "statsEffect ws (Some text) = (countWords ws text, readingTimeOf (countWords ws text))"
    by (simp add: statsEffect_def Let_def)
  then show "statsEffect ws (Some text)
     = (specWordCount ws text, nat \<lceil>(of_nat (specWordCount ws text) :: rat) / 200\<rceil>)"
    unfolding countWords_spec readingTimeOf_def .
  show "pageHTML threeWordsPage = ''<p>one two three</p>''"
    by (simp add: threeWordsPage_def pageHTML_def lowerTag_def)
  show "statsEffect jsSpace (Some (pageInnerText threeWordsPage RootNode)) = (3, 1)"
    by (simp add: threeWordsPage_def pageInnerText_def pageText_def statsEffect_def Let_def
        countWords_tokenStarts jsSpace_def readingTimeOf_div)
qed

theorem word_count_and_reading_time_witness:
  "statsEffect jsSpace (Some ''  to be,  or not to be '') = (6, 1)"
proof -
  have w: "specWordCount jsSpace ''  to be,  or not to be '' = 6"
    by (simp add: specWordCount_tokenStarts jsSpace_def)
  have r: "nat \<lceil>(of_nat (6::nat) :: rat) / 200\<rceil> = 1"
    using readingTimeOf_div [of 6] unfolding readingTimeOf_def by simp
  from word_count_and_reading_time [of jsSpace "''  to be,  or not to be ''"]
  have "statsEffect jsSpace (Some ''  to be,  or not to be '')
          = (6, nat \<lceil>(of_nat (6::nat) :: rat) / 200\<rceil>)"
    unfolding w by (rule conjunct1)
  then show ?thesis unfolding r .
qed

section \<open>Boundary operations still emit\<close>

lemma move_without_sibling_emits:
  assumes "activeBlock e = Some a" "mounted e"
  shows "previousSibling (childNodes e) a = None \<Longrightarrow>
           handleBlockAction Up e
             = Inr (later UpdateActiveBlock ((onChange (innerHTMLOf e) e)\<lparr>showBlockOptions := False\<rparr>))"
    and "nextSibling (childNodes e) a = None \<Longrightarrow>
           handleBlockAction Down e
             = Inr (later UpdateActiveBlock ((onChange (innerHTMLOf e) e)\<lparr>showBlockOptions := False\<rparr>))"
  using assms by (simp_all add: handleBlockAction_def blockMutation_def)

lemma toggle_collapsed_outside_code:
  assumes "rangeCount B d \<noteq> 0"
    and "\<forall>el. anchorElement B d = Some el \<longrightarrow> tagName B d el \<noteq> Some ''CODE''"
    and "selectionToString B d = []"
  shows "toggleInlineCode B (d, u) = (d, onChange (currentHTML B d) u)"
  using assms
  by (auto simp: toggleInlineCode_def wrapSelection_def Let_def split: option.splits)

text \<open>
  Claim C10.  When a block action changes nothing (move-up of an active block without
  previous sibling, move-down of one without next sibling), and when the inline-code
  toggle finds a selection with empty text whose anchor is not in a \<open>code\<close> element,
  \<open>onChange\<close> is still called once, with the serialization of the unchanged document.
  The last part holds for every browser.
\<close>

theorem boundary_noops_still_emit:
  "(activeBlock e = Some a \<and> mounted e \<and> previousSibling (childNodes e) a = None \<longrightarrow>
      (case handleBlockAction Up e of
         Inl err \<Rightarrow> False
       | Inr e' \<Rightarrow> childNodes e' = childNodes e \<and> outerHTML e' = outerHTML e
                   \<and> emitted e' = emitted e @ [innerHTMLOf e]))
   \<and> (activeBlock e = Some a \<and> mounted e \<and> nextSibling (childNodes e) a = None \<longrightarrow>
      (case handleBlockAction Down e of
         Inl err \<Rightarrow> False
       | Inr e' \<Rightarrow> childNodes e' = childNodes e \<and> outerHTML e' = outerHTML e
                   \<and> emitted e' = emitted e @ [innerHTMLOf e]))
   \<and> (rangeCount B d \<noteq> 0
        \<and> (\<forall>el. anchorElement B d = Some el \<longrightarrow> tagName B d el \<noteq> Some ''CODE'')
        \<and> selectionToString B d = [] \<longrightarrow>
      fst (toggleInlineCode B (d, u)) = d
      \<and> emitted (snd (toggleInlineCode B (d, u))) = emitted u @ [currentHTML B d])"
proof (intro conjI impI)
  assume "activeBlock e = Some a \<and> mounted e \<and> previousSibling (childNodes e) a = None"
  then show "case handleBlockAction Up e of
         Inl err \<Rightarrow> False
       | Inr e' \<Rightarrow> childNodes e' = childNodes e \<and> outerHTML e' = outerHTML e
                   \<and> emitted e' = emitted e @ [innerHTMLOf e]"
    using move_without_sibling_emits(1) [of e a] by (simp add: later_def onChange_def)
next
  assume "activeBlock e = Some a \<and> mounted e \<and> nextSibling (childNodes e) a = None"
  then show "case handleBlockAction Down e of
         Inl err \<Rightarrow> False
       | Inr e' \<Rightarrow> childNodes e' = childNodes e \<and> outerHTML e' = outerHTML e
                   \<and> emitted e' = emitted e @ [innerHTMLOf e]"
    using move_without_sibling_emits(2) [of e a] by (simp add: later_def onChange_def)
next
  assume h: "rangeCount B d \<noteq> 0
        \<and> (\<forall>el. anchorElement B d = Some el \<longrightarrow> tagName B d el \<noteq> Some ''CODE'')
        \<and> selectionToString B d = []"
  then have t: "toggleInlineCode B (d, u) = (d, onChange (currentHTML B d) u)"
    using toggle_collapsed_outside_code [of B d u] by blast
  show "fst (toggleInlineCode B (d, u)) = d" using t by simp
  show "emitted (snd (toggleInlineCode B (d, u))) = emitted u @ [currentHTML B d]"
    using t by (simp add: onChange_def)
qed

theorem boundary_noops_still_emit_witness:
  "(case handleBlockAction Up docABC of
      Inl err \<Rightarrow> False
    | Inr e' \<Rightarrow> childNodes e' = [0, 1, 2] \<and> emitted e' = [''<p>A</p><p>B</p><p>C</p>''])
   \<and> (case handleBlockAction Down (docABC\<lparr>activeBlock := Some 2\<rparr>) of
      Inl err \<Rightarrow> False
    | Inr e' \<Rightarrow> childNodes e' = [0, 1, 2] \<and> emitted e' = [''<p>A</p><p>B</p><p>C</p>''])
   \<and> fst (toggleInlineCode smallBrowser (helloPage\<lparr>pageSel := Some (InText 0 3 3)\<rparr>, closedUi))
       = helloPage\<lparr>pageSel := Some (InText 0 3 3)\<rparr>
   \<and> emitted (snd (toggleInlineCode smallBrowser
                     (helloPage\<lparr>pageSel := Some (InText 0 3 3)\<rparr>, closedUi)))
       = [''<p>Hello world</p>'']"
proof -
  let ?l = "docABC\<lparr>activeBlock := Some 2\<rparr>"
  let ?p = "helloPage\<lparr>pageSel := Some (InText 0 3 3)\<rparr>"
  have h1: "activeBlock docABC = Some 0 \<and> mounted docABC
             \<and> previousSibling (childNodes docABC) 0 = None"
    by (simp add: docABC_def mountEditor_def)
  have h2: "activeBlock ?l = Some 2 \<and> mounted ?l \<and> nextSibling (childNodes ?l) 2 = None"
    by (simp add: docABC_def mountEditor_def)
  have h3: "rangeCount smallBrowser ?p \<noteq> 0
        \<and> (\<forall>el. anchorElement smallBrowser ?p = Some el
                \<longrightarrow> tagName smallBrowser ?p el \<noteq> Some ''CODE'')
        \<and> selectionToString smallBrowser ?p = []"
    by (simp add: page_defs helloPage_def)
  have v: "childNodes docABC = [0, 1, 2]" "childNodes ?l = [0, 1, 2]"
    "emitted docABC = []" "emitted ?l = []" "emitted closedUi = []"
    "innerHTMLOf docABC = ''<p>A</p><p>B</p><p>C</p>''"
    "innerHTMLOf ?l = ''<p>A</p><p>B</p><p>C</p>''"
    "currentHTML smallBrowser ?p = ''<p>Hello world</p>''"
    by (simp_all add: docABC_def mountEditor_def closedUi_def innerHTMLOf_def blockHTML_def
        page_defs helloPage_def)
  note a = boundary_noops_still_emit [of docABC 0 smallBrowser ?p closedUi,
      THEN conjunct1, THEN mp, OF h1]
  note b = boundary_noops_still_emit [of ?l 2 smallBrowser ?p closedUi,
      THEN conjunct2, THEN conjunct1, THEN mp, OF h2]
  note c = boundary_noops_still_emit [of ?l 2 smallBrowser ?p closedUi,
      THEN conjunct2, THEN conjunct2, THEN mp, OF h3]
  have a': "case handleBlockAction Up docABC of
      Inl err \<Rightarrow> False
    | Inr e' \<Rightarrow> childNodes e' = [0, 1, 2] \<and> emitted e' = [''<p>A</p><p>B</p><p>C</p>'']"
    using a unfolding v by (cases "handleBlockAction Up docABC") simp_all
  have b': "case handleBlockAction Down ?l of
      Inl err \<Rightarrow> False
    | Inr e' \<Rightarrow> childNodes e' = [0, 1, 2] \<and> emitted e' = [''<p>A</p><p>B</p><p>C</p>'']"
    using b unfolding v by (cases "handleBlockAction Down ?l") simp_all
  have c': "fst (toggleInlineCode smallBrowser (?p, closedUi)) = ?p
      \<and> emitted (snd (toggleInlineCode smallBrowser (?p, closedUi))) = [''<p>Hello world</p>'']"
    using c unfolding v by simp
  from a' b' c' show ?thesis by (intro conjI) (rule a', rule b', simp_all)
qed

end
